theory Spec2Isabelle
  imports Complex_Main
begin

section \<open>Python values and built-ins used by the watcher\<close>

text \<open>
  The watcher (\<^verbatim>\<open>src/watcher/watcher.py\<close>) is embedded function by function. Exceptions are
  values of \<open>py_error\<close>; every function that can raise returns a sum with \<open>Inl\<close> for the
  exception. Mutable objects are records that are passed in and returned updated, with the
  returned value first and the new state second.
\<close>

datatype py_error = TypeError | ValueError | OverflowError | AttributeError

text \<open>
  A Python \<^verbatim>\<open>float\<close> is a binary64 number: a finite value is kept as the rational it
  denotes exactly, next to the two infinities and NaN.
\<close>

datatype pyfloat = Fin rat | PosInf | NegInf | NaN

text \<open>What \<^verbatim>\<open>json.loads\<close> can return; an object carries the items of the decoded dict.\<close>

datatype json =
    JNull
  | JBool bool
  | JInt int
  | JFloat pyfloat
  | JStr string
  | JArr "json list"
  | JObj "(string \<times> json) list"

subsection \<open>binary64 arithmetic\<close>

text \<open>
  Rounding to the nearest binary64 value, ties to even, with a significand of 53 bits. The
  exponent range is not modelled: every quantity the watcher rounds is either zero or lies
  between \<open>1 / maxlen\<close> and a little over \<open>100\<close>, and a deque's \<^verbatim>\<open>maxlen\<close> is below
  \<open>2 ^ 63\<close>, so neither overflow nor a subnormal result can occur.
\<close>

function bit_length :: "int \<Rightarrow> int" where
  "bit_length n = (if n \<le> 0 then 0 else 1 + bit_length (n div 2))"
  by pat_completeness auto
termination
  by (relation "measure nat") auto

declare bit_length.simps [simp del]

definition pow2 :: "int \<Rightarrow> rat" where
  "pow2 e = (if 0 \<le> e then 2 ^ nat e else 1 / 2 ^ nat (- e))"

text \<open>For \<open>q > 0\<close>, \<open>ilog2 q\<close> is the integer \<open>e\<close> with \<open>2 ^ e \<le> q < 2 ^ (e + 1)\<close>.\<close>

definition ilog2 :: "rat \<Rightarrow> int" where
  "ilog2 q =
     (let (a, b) = quotient_of q;
          d = bit_length a - bit_length b
      in if pow2 d \<le> q then d else d - 1)"

definition round_half_even :: "rat \<Rightarrow> int" where
  "round_half_even q =
     (let f = \<lfloor>q\<rfloor>; r = q - of_int f
      in if r < 1 / 2 then f
         else if 1 / 2 < r then f + 1
         else if even f then f else f + 1)"

definition binary64 :: "rat \<Rightarrow> rat" where
  "binary64 q =
     (if q = 0 then 0
      else let a = \<bar>q\<bar>; ulp = pow2 (ilog2 a - 52)
           in sgn q * of_int (round_half_even (a / ulp)) * ulp)"

text \<open>
  \<^verbatim>\<open>a / b\<close> on two \<^verbatim>\<open>int\<close>s is the correctly rounded quotient; the watcher only divides
  by the length of a non-empty window. \<^verbatim>\<open>x * 100\<close> is the correctly rounded product.
\<close>

definition int_truediv :: "nat \<Rightarrow> nat \<Rightarrow> rat" where
  "int_truediv a b = binary64 (of_nat a / of_nat b)"

definition float_mul :: "rat \<Rightarrow> rat \<Rightarrow> rat" where
  "float_mul x y = binary64 (x * y)"

text \<open>\<^verbatim>\<open>x > t\<close> for a finite \<open>x\<close>: every comparison with NaN is false.\<close>

fun float_gt :: "rat \<Rightarrow> pyfloat \<Rightarrow> bool" where
  "float_gt x (Fin t) = (t < x)"
| "float_gt x PosInf = False"
| "float_gt x NegInf = True"
| "float_gt x NaN = False"

text \<open>
  \<^verbatim>\<open>round(x, 2)\<close>: the exact value of \<open>x\<close> is rounded half-even to two decimals, and the
  decimal result is converted back to the nearest binary64 value.
\<close>

definition py_round2 :: "rat \<Rightarrow> rat" where
  "py_round2 x = binary64 (of_int (round_half_even (x * 100)) / 100)"

subsection \<open>Strings\<close>

text \<open>
  A character is a code point below 256. On these, \<^verbatim>\<open>str.lower\<close> maps \<open>A..Z\<close> and
  the capital letters of Latin-1 (codes 192 to 222 without the multiplication sign 215) to
  the letter 32 places later, and \<^verbatim>\<open>str.strip\<close> removes the characters for which
  \<^verbatim>\<open>str.isspace\<close> holds (codes 9 to 13, 28 to 32, 133 and 160) from both ends.
\<close>

definition py_lower_char :: "char \<Rightarrow> char" where
  "py_lower_char c =
     (let n = (of_char c :: nat)
      in if (65 \<le> n \<and> n \<le> 90) \<or> (192 \<le> n \<and> n \<le> 222 \<and> n \<noteq> 215)
         then char_of (n + 32) else c)"

definition py_lower :: "string \<Rightarrow> string" where
  "py_lower s = map py_lower_char s"

definition py_isspace :: "char \<Rightarrow> bool" where
  "py_isspace c =
     (let n = (of_char c :: nat)
      in (9 \<le> n \<and> n \<le> 13) \<or> (28 \<le> n \<and> n \<le> 32) \<or> n = 133 \<or> n = 160)"

definition py_strip :: "string \<Rightarrow> string" where
  "py_strip s = rev (dropWhile py_isspace (rev (dropWhile py_isspace s)))"

subsection \<open>The built-in \<^verbatim>\<open>int\<close>\<close>

text \<open>
  \<^verbatim>\<open>int(s)\<close> on a string, base 10. White space is skipped at both ends: the white space
  of the C locale (codes 9 to 13 and 32) and, of the other characters, those that are
  Unicode white space (codes 133 and 160; the separators 28 to 31 are not skipped). One sign
  is allowed, and the digits may be separated by single underscores. A string with more than
  4300 digits is refused (the interpreter's default limit; signs, underscores and white
  space do not count, leading zeros do). Anything that is refused raises
  \<^verbatim>\<open>ValueError\<close>.
\<close>

definition int_isspace :: "char \<Rightarrow> bool" where
  "int_isspace c =
     (let n = (of_char c :: nat)
      in (9 \<le> n \<and> n \<le> 13) \<or> n = 32 \<or> n = 133 \<or> n = 160)"

definition is_digit :: "char \<Rightarrow> bool" where
  "is_digit c = (let n = (of_char c :: nat) in 48 \<le> n \<and> n \<le> 57)"

definition digit_value :: "char \<Rightarrow> nat" where
  "digit_value c = (of_char c :: nat) - 48"

text \<open>Digits with single underscores between them; the flag says that a digit came last.\<close>

fun digits_ok :: "bool \<Rightarrow> string \<Rightarrow> bool" where
  "digits_ok after_digit [] = after_digit"
| "digits_ok after_digit (c # cs) =
     (if is_digit c then digits_ok True cs
      else if c = CHR ''_'' \<and> after_digit then digits_ok False cs
      else False)"

definition digits_to_nat :: "string \<Rightarrow> nat" where
  "digits_to_nat ds = foldl (\<lambda>acc c. 10 * acc + digit_value c) 0 (filter is_digit ds)"

definition max_str_digits :: nat where
  "max_str_digits = 4300"

definition py_int_of_str :: "string \<Rightarrow> py_error + int" where
  "py_int_of_str s =
     (let t = rev (dropWhile int_isspace (rev (dropWhile int_isspace s)));
          (negative, body) =
            (case t of
               [] \<Rightarrow> (False, [])
             | c # r \<Rightarrow>
                 if c = CHR ''-'' then (True, r)
                 else if c = CHR ''+'' then (False, r)
                 else (False, t))
      in if digits_ok False body \<and> length (filter is_digit body) \<le> max_str_digits
         then Inr (if negative then - int (digits_to_nat body) else int (digits_to_nat body))
         else Inl ValueError)"

text \<open>\<^verbatim>\<open>int(x)\<close> on a float truncates towards zero and rejects NaN and the infinities.\<close>

fun py_int_of_float :: "pyfloat \<Rightarrow> py_error + int" where
  "py_int_of_float (Fin q) = Inr (if 0 \<le> q then \<lfloor>q\<rfloor> else \<lceil>q\<rceil>)"
| "py_int_of_float NaN = Inl ValueError"
| "py_int_of_float PosInf = Inl OverflowError"
| "py_int_of_float NegInf = Inl OverflowError"

fun py_int :: "json \<Rightarrow> py_error + int" where
  "py_int (JInt n) = Inr n"
| "py_int (JBool b) = Inr (if b then 1 else 0)"
| "py_int (JFloat x) = py_int_of_float x"
| "py_int (JStr s) = py_int_of_str s"
| "py_int JNull = Inl TypeError"
| "py_int (JArr xs) = Inl TypeError"
| "py_int (JObj kvs) = Inl TypeError"

subsection \<open>\<^verbatim>\<open>collections.deque\<close> with a maximum length\<close>

text \<open>
  \<^verbatim>\<open>append\<close> adds on the right and, when the deque is then longer than \<^verbatim>\<open>maxlen\<close>,
  drops the leftmost item. (\<^verbatim>\<open>deque(maxlen=n)\<close> raises for a negative \<open>n\<close>, so a deque
  that exists has a natural number as its bound.)
\<close>

record 'a deque =
  maxlen :: nat
  items :: "'a list"

definition deque_new :: "nat \<Rightarrow> 'a deque" where
  "deque_new n = \<lparr>maxlen = n, items = []\<rparr>"

definition deque_append :: "'a deque \<Rightarrow> 'a \<Rightarrow> 'a deque" where
  "deque_append d x =
     (let ys = items d @ [x]
      in d\<lparr>items := (if maxlen d < length ys then tl ys else ys)\<rparr>)"

section \<open>AlertManager\<close>

text \<open>
  Times are microseconds, the resolution of \<^verbatim>\<open>datetime\<close>; the value read by
  \<^verbatim>\<open>datetime.now()\<close> is an argument. \<^verbatim>\<open>timedelta(seconds=s)\<close> raises
  \<^verbatim>\<open>OverflowError\<close> when the number of days is beyond 999999999 in magnitude.
\<close>

record AlertManager =
  cooldown_seconds :: int
  last_alerts :: "string \<rightharpoonup> int"

definition AlertManager_init :: "int \<Rightarrow> AlertManager" where
  "AlertManager_init cooldown = \<lparr>cooldown_seconds = cooldown, last_alerts = Map.empty\<rparr>"

definition timedelta_in_range :: "int \<Rightarrow> bool" where
  "timedelta_in_range s = (- 999999999 \<le> s div 86400 \<and> s div 86400 \<le> 999999999)"

definition timedelta_seconds :: "int \<Rightarrow> py_error + int" where
  "timedelta_seconds s =
     (if timedelta_in_range s then Inr (s * 1000000) else Inl OverflowError)"

definition should_alert :: "int \<Rightarrow> AlertManager \<Rightarrow> string \<Rightarrow> (py_error + bool) \<times> AlertManager" where
  "should_alert now am alert_type =
     (case last_alerts am alert_type of
        None \<Rightarrow> (Inr True, am\<lparr>last_alerts := (last_alerts am)(alert_type \<mapsto> now)\<rparr>)
      | Some last_time \<Rightarrow>
          (case timedelta_seconds (cooldown_seconds am) of
             Inl e \<Rightarrow> (Inl e, am)
           | Inr cooldown \<Rightarrow>
               if cooldown < now - last_time
               then (Inr True, am\<lparr>last_alerts := (last_alerts am)(alert_type \<mapsto> now)\<rparr>)
               else (Inr False, am)))"

section \<open>PoolTracker\<close>

record PoolTracker =
  current_pool :: "string option"
  last_seen_pools :: "string deque"

definition PoolTracker_init :: PoolTracker where
  "PoolTracker_init = \<lparr>current_pool = None, last_seen_pools = deque_new 10\<rparr>"

text \<open>Truthiness of an \<^verbatim>\<open>Optional[str]\<close>: neither \<^verbatim>\<open>None\<close> nor the empty string.\<close>

fun truthy :: "string option \<Rightarrow> bool" where
  "truthy None = False"
| "truthy (Some s) = (s \<noteq> [])"

definition update_pool :: "PoolTracker \<Rightarrow> string option \<Rightarrow> string option \<times> PoolTracker" where
  "update_pool pt pool =
     (case pool of
        None \<Rightarrow> (None, pt)
      | Some p \<Rightarrow>
          if p = [] then (None, pt)
          else
            let previous_pool = current_pool pt
            in if p \<in> set [''blue'', ''green'']
               then
                 let pt' = pt\<lparr>current_pool := Some p,
                              last_seen_pools := deque_append (last_seen_pools pt) p\<rparr>
                 in if truthy previous_pool \<and> previous_pool \<noteq> Some p
                    then (previous_pool, pt')
                    else (None, pt')
               else (None, pt))"

section \<open>ErrorRateMonitor\<close>

record ErrorRateMonitor =
  window_size :: nat
  threshold_percent :: pyfloat
  requests :: "int deque"

definition ErrorRateMonitor_init :: "nat \<Rightarrow> pyfloat \<Rightarrow> ErrorRateMonitor" where
  "ErrorRateMonitor_init capacity threshold =
     \<lparr>window_size = capacity, threshold_percent = threshold, requests = deque_new capacity\<rparr>"

definition error_count :: "int list \<Rightarrow> nat" where
  "error_count xs = length (filter (\<lambda>status. 500 \<le> status) xs)"

definition add_request :: "ErrorRateMonitor \<Rightarrow> int \<Rightarrow> bool \<times> ErrorRateMonitor" where
  "add_request m status_code =
     (let m' = m\<lparr>requests := deque_append (requests m) status_code\<rparr>;
          xs = items (requests m')
      in if length xs < 50 then (False, m')
         else
           let error_rate = float_mul (int_truediv (error_count xs) (length xs)) 100
           in (float_gt error_rate (threshold_percent m'), m'))"

record stats =
  total :: nat
  errors :: nat
  error_rate :: rat

definition get_current_stats :: "ErrorRateMonitor \<Rightarrow> stats" where
  "get_current_stats m =
     (let xs = items (requests m)
      in if xs = [] then \<lparr>total = 0, errors = 0, error_rate = 0\<rparr>
         else
           let total_count = length xs;
               rate = float_mul (int_truediv (error_count xs) total_count) 100
           in \<lparr>total = total_count, errors = error_count xs, error_rate = py_round2 rate\<rparr>)"

section \<open>SlackNotifier\<close>

text \<open>
  The webhook is outside the program: the outcome of \<^verbatim>\<open>requests.post\<close> followed by
  \<^verbatim>\<open>raise_for_status\<close> is an argument, \<open>None\<close> for success and \<open>Some e\<close> for the
  \<^verbatim>\<open>RequestException\<close> raised. What the program does to the outside is a list of effects.
  The text of a message is not modelled, only the alert it carries.
\<close>

datatype request_exception = Timeout | ConnectionError | HTTPError

datatype alert = ErrorRateAlert stats | FailoverAlert string string

datatype effect =
    Warned alert
  | Posted alert
  | LoggedSent
  | LoggedSendFailure request_exception
  | LoggedProcessingError py_error

record SlackNotifier =
  webhook_url :: string

definition send_message :: "SlackNotifier \<Rightarrow> request_exception option \<Rightarrow> alert \<Rightarrow> effect list" where
  "send_message n outcome a =
     Posted a # (case outcome of None \<Rightarrow> [LoggedSent] | Some e \<Rightarrow> [LoggedSendFailure e])"

definition send_failover_alert ::
    "SlackNotifier \<Rightarrow> request_exception option \<Rightarrow> string \<Rightarrow> string \<Rightarrow> effect list" where
  "send_failover_alert n outcome previous_pool pool =
     send_message n outcome (FailoverAlert previous_pool pool)"

definition send_error_rate_alert ::
    "SlackNotifier \<Rightarrow> request_exception option \<Rightarrow> stats \<Rightarrow> effect list" where
  "send_error_rate_alert n outcome st = send_message n outcome (ErrorRateAlert st)"

section \<open>LogWatcher\<close>

record LogWatcher =
  alert_manager :: AlertManager
  pool_tracker :: PoolTracker
  error_monitor :: ErrorRateMonitor
  slack_notifier :: "SlackNotifier option"

text \<open>
  The constructor, from the values read from the environment: the webhook, the threshold,
  the window size and the cooldown. A notifier exists only for a non-empty webhook.
\<close>

definition LogWatcher_init :: "string option \<Rightarrow> pyfloat \<Rightarrow> nat \<Rightarrow> int \<Rightarrow> LogWatcher" where
  "LogWatcher_init slack_webhook error_threshold capacity cooldown =
     \<lparr>alert_manager = AlertManager_init cooldown,
      pool_tracker = PoolTracker_init,
      error_monitor = ErrorRateMonitor_init capacity error_threshold,
      slack_notifier =
        (case slack_webhook of
           None \<Rightarrow> None
         | Some url \<Rightarrow> if url = [] then None else Some \<lparr>webhook_url = url\<rparr>)\<rparr>"

text \<open>
  What one call of \<^verbatim>\<open>process_log_entry\<close> reads from outside: the clock at each of the
  two places where \<^verbatim>\<open>should_alert\<close> may be called, and the outcome of each of the two
  possible posts.
\<close>

record event_env =
  now_error_rate :: int
  now_failover :: int
  post_error_rate :: "request_exception option"
  post_failover :: "request_exception option"

text \<open>
  Lines 256 to 258: \<^verbatim>\<open>entry.get\<close> exists on a dict only; \<^verbatim>\<open>int\<close> may raise;
  \<^verbatim>\<open>lower\<close> exists on a string only.
\<close>

definition extract_fields :: "json \<Rightarrow> py_error + int \<times> string" where
  "extract_fields entry =
     (case entry of
        JObj kvs \<Rightarrow>
          (case py_int (case map_of kvs ''status'' of None \<Rightarrow> JInt 0 | Some v \<Rightarrow> v) of
             Inl e \<Rightarrow> Inl e
           | Inr status_code \<Rightarrow>
               (case (case map_of kvs ''pool'' of None \<Rightarrow> JStr [] | Some v \<Rightarrow> v) of
                  JStr s \<Rightarrow> Inr (status_code, py_strip (py_lower s))
                | _ \<Rightarrow> Inl AttributeError))
      | _ \<Rightarrow> Inl AttributeError)"

text \<open>
  Lines 261 to 267. The first component is the exception that ends the block, if any; the
  state is the one reached when it was raised.
\<close>

definition track_error_rate ::
    "event_env \<Rightarrow> LogWatcher \<Rightarrow> int \<Rightarrow> py_error option \<times> LogWatcher \<times> effect list" where
  "track_error_rate env w status_code =
     (if 0 < status_code then
        (case add_request (error_monitor w) status_code of
           (breach, em) \<Rightarrow>
             let w1 = w\<lparr>error_monitor := em\<rparr>
             in if breach then
                  (case should_alert (now_error_rate env) (alert_manager w1) ''error_rate'' of
                     (Inl e, am) \<Rightarrow> (Some e, w1, [])
                   | (Inr fire, am) \<Rightarrow>
                       let w2 = w1\<lparr>alert_manager := am\<rparr>
                       in if fire then
                            let st = get_current_stats (error_monitor w2)
                            in (None, w2,
                                Warned (ErrorRateAlert st) #
                                (case slack_notifier w2 of
                                   None \<Rightarrow> []
                                 | Some n \<Rightarrow> send_error_rate_alert n (post_error_rate env) st))
                          else (None, w2, []))
                else (None, w1, []))
      else (None, w, []))"

text \<open>Lines 270 to 276.\<close>

definition track_pool_change ::
    "event_env \<Rightarrow> LogWatcher \<Rightarrow> string \<Rightarrow> py_error option \<times> LogWatcher \<times> effect list" where
  "track_pool_change env w pool =
     (if pool \<noteq> [] then
        (case update_pool (pool_tracker w) (Some pool) of
           (previous_pool, pt) \<Rightarrow>
             let w1 = w\<lparr>pool_tracker := pt\<rparr>
             in (case previous_pool of
                   None \<Rightarrow> (None, w1, [])
                 | Some previous \<Rightarrow>
                     if previous = [] then (None, w1, [])
                     else
                       (case should_alert (now_failover env) (alert_manager w1) ''failover'' of
                          (Inl e, am) \<Rightarrow> (Some e, w1, [])
                        | (Inr fire, am) \<Rightarrow>
                            let w2 = w1\<lparr>alert_manager := am\<rparr>
                            in if fire then
                                 (None, w2,
                                  Warned (FailoverAlert previous pool) #
                                  (case slack_notifier w2 of
                                     None \<Rightarrow> []
                                   | Some n \<Rightarrow>
                                       send_failover_alert n (post_failover env) previous pool))
                               else (None, w2, []))))
      else (None, w, []))"

text \<open>
  The two blocks in sequence, after the fields have been extracted; an exception in the
  first block skips the second and is logged by the handler of line 278.
\<close>

definition process_fields ::
    "event_env \<Rightarrow> LogWatcher \<Rightarrow> int \<Rightarrow> string \<Rightarrow> LogWatcher \<times> effect list" where
  "process_fields env w status_code pool =
     (case track_error_rate env w status_code of
        (Some e, w1, fx1) \<Rightarrow> (w1, fx1 @ [LoggedProcessingError e])
      | (None, w1, fx1) \<Rightarrow>
          (case track_pool_change env w1 pool of
             (Some e, w2, fx2) \<Rightarrow> (w2, fx1 @ fx2 @ [LoggedProcessingError e])
           | (None, w2, fx2) \<Rightarrow> (w2, fx1 @ fx2)))"

definition process_log_entry :: "event_env \<Rightarrow> LogWatcher \<Rightarrow> json \<Rightarrow> LogWatcher \<times> effect list" where
  "process_log_entry env w entry =
     (case extract_fields entry of
        Inl e \<Rightarrow> (w, [LoggedProcessingError e])
      | Inr (status_code, pool) \<Rightarrow> process_fields env w status_code pool)"

section \<open>Sequences of calls\<close>

fun update_pools :: "PoolTracker \<Rightarrow> string option list \<Rightarrow> string option list \<times> PoolTracker" where
  "update_pools pt [] = ([], pt)"
| "update_pools pt (p # ps) =
     (case update_pool pt p of
        (r, pt') \<Rightarrow> (case update_pools pt' ps of (rs, pt'') \<Rightarrow> (r # rs, pt'')))"

fun add_requests :: "ErrorRateMonitor \<Rightarrow> int list \<Rightarrow> bool list \<times> ErrorRateMonitor" where
  "add_requests m [] = ([], m)"
| "add_requests m (c # cs) =
     (case add_request m c of
        (r, m') \<Rightarrow> (case add_requests m' cs of (rs, m'') \<Rightarrow> (r # rs, m'')))"

fun process_entries :: "LogWatcher \<Rightarrow> (event_env \<times> json) list \<Rightarrow> LogWatcher \<times> effect list" where
  "process_entries w [] = (w, [])"
| "process_entries w ((env, entry) # es) =
     (case process_log_entry env w entry of
        (w', fx) \<Rightarrow> (case process_entries w' es of (w'', fx') \<Rightarrow> (w'', fx @ fx')))"

text \<open>The alerts that a list of effects carries, and the kind whose cooldown applies to each.\<close>

fun alert_kind :: "alert \<Rightarrow> string" where
  "alert_kind (ErrorRateAlert st) = ''error_rate''"
| "alert_kind (FailoverAlert previous_pool pool) = ''failover''"

fun alerts_of :: "effect list \<Rightarrow> alert list" where
  "alerts_of [] = []"
| "alerts_of (Warned a # fx) = a # alerts_of fx"
| "alerts_of (Posted a # fx) = a # alerts_of fx"
| "alerts_of (x # fx) = alerts_of fx"

section \<open>Notions of the specification\<close>

text \<open>
  The invariant of the window: the deque is bounded by the configured size \<open>W\<close> and holds
  at most \<open>W\<close> status codes.
\<close>

definition window_inv :: "ErrorRateMonitor \<Rightarrow> bool" where
  "window_inv m =
     (maxlen (requests m) = window_size m \<and> length (items (requests m)) \<le> window_size m)"

text \<open>The last \<open>n\<close> elements of a list: what a window of capacity \<open>n\<close> retains of it.\<close>

definition keep_last :: "nat \<Rightarrow> 'a list \<Rightarrow> 'a list" where
  "keep_last n xs = drop (length xs - n) xs"

text \<open>
  The error rate of the specification, \<open>count(code \<ge> 500) / len(window) * 100\<close>, as the
  exact rational number.
\<close>

definition spec_errorRate :: "int list \<Rightarrow> rat" where
  "spec_errorRate window =
     of_nat (length (filter (\<lambda>code. 500 \<le> code) window)) / of_nat (length window) * 100"

text \<open>A watcher whose window is bounded by a size below the floor of 50 samples.\<close>

definition small_window :: "LogWatcher \<Rightarrow> bool" where
  "small_window w = (window_inv (error_monitor w) \<and> window_size (error_monitor w) < 50)"

text \<open>
  Field extraction as the sentence on field-extraction errors describes it: a field that is
  missing or malformed takes its default, status code 0 and no pool, and the entry is
  processed with what remains.
\<close>

definition spec_extract_fields :: "json \<Rightarrow> int \<times> string" where
  "spec_extract_fields entry =
     (case entry of
        JObj kvs \<Rightarrow>
          ((case map_of kvs ''status'' of
              None \<Rightarrow> 0
            | Some v \<Rightarrow> (case py_int v of Inl e \<Rightarrow> 0 | Inr n \<Rightarrow> n)),
           (case map_of kvs ''pool'' of
              Some (JStr s) \<Rightarrow> py_strip (py_lower s)
            | _ \<Rightarrow> []))
      | _ \<Rightarrow> (0, []))"

text \<open>An effect list up to the log line that reports the outcome of a post.\<close>

fun mask_send_result :: "effect \<Rightarrow> effect" where
  "mask_send_result (LoggedSendFailure e) = LoggedSent"
| "mask_send_result x = x"

section \<open>Example inputs\<close>

text \<open>
  A watcher with a notifier, whose current pool is \<open>blue\<close> and whose window holds 49
  failed requests; clock readings with both posts timing out; and an entry that brings the
  window to 50 failed requests and names the pool \<open>green\<close>.
\<close>

definition breaching_watcher :: LogWatcher where
  "breaching_watcher =
     \<lparr>alert_manager = AlertManager_init 300,
      pool_tracker =
        \<lparr>current_pool = Some ''blue'', last_seen_pools = \<lparr>maxlen = 10, items = [''blue'']\<rparr>\<rparr>,
      error_monitor =
        \<lparr>window_size = 200, threshold_percent = Fin 2,
         requests = \<lparr>maxlen = 200, items = replicate 49 503\<rparr>\<rparr>,
      slack_notifier = Some \<lparr>webhook_url = ''https://hooks.slack.test/T0''\<rparr>\<rparr>"

definition failing_env :: "int \<Rightarrow> event_env" where
  "failing_env now =
     \<lparr>now_error_rate = now, now_failover = now,
      post_error_rate = Some Timeout, post_failover = Some Timeout\<rparr>"

definition error_entry :: json where
  "error_entry = JObj [(''status'', JInt 503), (''pool'', JStr ''green'')]"

definition full_error_stats :: stats where
  "full_error_stats = \<lparr>total = 50, errors = 50, error_rate = 100\<rparr>"

text \<open>
  Three monitors one request short of 100 entries: with 2 failed requests and the threshold
  2.0; with 6 failed requests and the threshold 7.0; and with 56 failed requests and the
  threshold 56.99999999999999, the binary64 number just below 57.
\<close>

definition three_percent_monitor :: ErrorRateMonitor where
  "three_percent_monitor =
     \<lparr>window_size = 200, threshold_percent = Fin 2,
      requests = \<lparr>maxlen = 200, items = replicate 97 200 @ [500, 502]\<rparr>\<rparr>"

definition seven_percent_monitor :: ErrorRateMonitor where
  "seven_percent_monitor =
     \<lparr>window_size = 100, threshold_percent = Fin 7,
      requests = \<lparr>maxlen = 100, items = replicate 93 200 @ replicate 6 500\<rparr>\<rparr>"

definition fifty_seven_percent_monitor :: ErrorRateMonitor where
  "fifty_seven_percent_monitor =
     \<lparr>window_size = 100, threshold_percent = Fin (57 - 1 / 2 ^ 47),
      requests = \<lparr>maxlen = 100, items = replicate 43 200 @ replicate 56 500\<rparr>\<rparr>"

section \<open>The built-ins beyond ASCII\<close>

text \<open>
  \<^verbatim>\<open>int\<close> skips a no-break space but not a separator of the codes 28 to 31, which
  \<^verbatim>\<open>str.strip\<close> removes; and \<^verbatim>\<open>int\<close> refuses more than 4300 digits.
\<close>

lemma int_skips_no_break_space: "py_int_of_str [CHR ''7'', CHR 0xA0] = Inr 7"
  by code_simp

lemma int_keeps_separator: "py_int_of_str [CHR 0x1C, CHR ''7''] = Inl ValueError"
  by code_simp

lemma strip_removes_no_break_space: "py_strip (py_lower (''Blue'' @ [CHR 0xA0])) = ''blue''"
  by code_simp

lemma int_digit_limit:
  assumes "4300 < n"
  shows "py_int_of_str (replicate n (CHR ''1'')) = Inl ValueError"
proof -
  obtain k where n: "n = Suc k"
    using assms by (cases n) simp_all
  have sp: "\<not> int_isspace (CHR ''1'')" and dg: "is_digit (CHR ''1'')"
    by (simp_all add: int_isspace_def is_digit_def)
  have d: "dropWhile int_isspace (replicate n (CHR ''1'')) = replicate n (CHR ''1'')"
    using sp by (simp add: n)
  have t: "rev (dropWhile int_isspace (rev (dropWhile int_isspace (replicate n (CHR ''1'')))))
      = CHR ''1'' # replicate k (CHR ''1'')"
    by (simp only: d rev_replicate) (simp add: n)
  have "length (filter is_digit (CHR ''1'' # replicate k (CHR ''1''))) = n"
    using dg by (simp add: n)
  with assms show ?thesis
    unfolding py_int_of_str_def t by (simp add: max_str_digits_def)
qed

section \<open>Properties of ErrorRateMonitor\<close>

lemma snd_add_request:
  "snd (add_request m c) = m\<lparr>requests := deque_append (requests m) c\<rparr>"
  by (simp add: add_request_def Let_def)

lemma fst_add_request:
  "fst (add_request m c) =
     (let xs = items (deque_append (requests m) c)
      in \<not> length xs < 50 \<and>
         float_gt (float_mul (int_truediv (error_count xs) (length xs)) 100) (threshold_percent m))"
  by (simp add: add_request_def Let_def)

text \<open>
  Claim C4. A call of \<open>add_request\<close> after which the window holds fewer than 50 entries
  returns \<open>False\<close>, whatever the status code and the threshold are.
\<close>

theorem add_request_below_floor:
  "length (items (requests (snd (add_request m status_code)))) < 50 \<Longrightarrow>
   fst (add_request m status_code) = False"
  by (simp add: snd_add_request fst_add_request)

theorem add_request_below_floor_witness:
  "length (items (requests (snd (add_request (ErrorRateMonitor_init 200 (Fin 2)) 503)))) < 50 \<and>
   fst (add_request (ErrorRateMonitor_init 200 (Fin 2)) 503) = False"
  using add_request_below_floor [of "ErrorRateMonitor_init 200 (Fin 2)" 503]
  by (simp add: add_request_def ErrorRateMonitor_init_def deque_append_def deque_new_def)

lemma fst_add_requests_Cons:
  "fst (add_requests m (c # cs)) = fst (add_request m c) # fst (add_requests (snd (add_request m c)) cs)"
  by (simp split: prod.splits)

lemma snd_add_requests_Cons:
  "snd (add_requests m (c # cs)) = snd (add_requests (snd (add_request m c)) cs)"
  by (simp split: prod.splits)

declare add_requests.simps(2) [simp del]
declare fst_add_requests_Cons [simp] snd_add_requests_Cons [simp]

lemma items_deque_append:
  "length (items d) \<le> maxlen d \<Longrightarrow>
   items (deque_append d x) = keep_last (maxlen d) (items d @ [x])"
  by (cases "items d") (auto simp: deque_append_def keep_last_def Let_def Suc_diff_le)

lemma length_keep_last: "length (keep_last n xs) = min n (length xs)"
  by (auto simp: keep_last_def)

lemma keep_last_append:
  "keep_last n (keep_last n ys @ cs) = keep_last n (ys @ cs)"
proof (cases "length ys \<le> n")
  case True
  then show ?thesis by (simp add: keep_last_def)
next
  case False
  then show ?thesis by (simp add: keep_last_def add.commute)
qed

lemma maxlen_deque_append: "maxlen (deque_append d x) = maxlen d"
  by (simp add: deque_append_def Let_def)

lemma length_deque_append:
  "length (items d) \<le> maxlen d \<Longrightarrow> length (items (deque_append d x)) \<le> maxlen d"
  by (auto simp: deque_append_def Let_def)

lemma window_inv_init: "window_inv (ErrorRateMonitor_init W t)"
  by (simp add: window_inv_def ErrorRateMonitor_init_def deque_new_def)

lemma window_inv_add_request: "window_inv m \<Longrightarrow> window_inv (snd (add_request m c))"
  using length_deque_append [of "requests m" c]
  by (simp add: window_inv_def snd_add_request maxlen_deque_append)

lemma window_size_add_request: "window_size (snd (add_request m c)) = window_size m"
  by (simp add: snd_add_request)

lemma threshold_add_request: "threshold_percent (snd (add_request m c)) = threshold_percent m"
  by (simp add: snd_add_request)

lemma window_inv_add_requests: "window_inv m \<Longrightarrow> window_inv (snd (add_requests m cs))"
  by (induction cs arbitrary: m) (simp_all add: window_inv_add_request)

lemma window_size_add_requests: "window_size (snd (add_requests m cs)) = window_size m"
  by (induction cs arbitrary: m) (simp_all add: window_size_add_request)

lemma items_add_requests:
  "window_inv m \<Longrightarrow>
   items (requests (snd (add_requests m cs))) = keep_last (window_size m) (items (requests m) @ cs)"
proof (induction cs arbitrary: m)
  case Nil
  then show ?case by (simp add: window_inv_def keep_last_def)
next
  case (Cons c cs)
  let ?m = "snd (add_request m c)"
  have inv: "window_inv ?m" using Cons.prems by (rule window_inv_add_request)
  have it: "items (requests ?m) = keep_last (window_size m) (items (requests m) @ [c])"
    using Cons.prems items_deque_append [of "requests m" c]
    by (simp add: snd_add_request window_inv_def)
  show ?case
    using Cons.IH [OF inv] keep_last_append [of "window_size m" "items (requests m) @ [c]" cs]
    by (simp add: it window_size_add_request)
qed

lemma items_add_requests_init:
  "items (requests (snd (add_requests (ErrorRateMonitor_init W t) cs))) = keep_last W cs"
  using items_add_requests [OF window_inv_init, of W t cs]
  by (simp add: ErrorRateMonitor_init_def deque_new_def)

lemma get_current_stats_items:
  "items (requests m) = items (requests m') \<Longrightarrow> get_current_stats m = get_current_stats m'"
  by (simp add: get_current_stats_def)

text \<open>
  Claim C5. The window never holds more than \<open>W\<close> entries: the bound holds for a new
  monitor and every \<open>add_request\<close> preserves it. Eviction is oldest first: after
  \<open>W + 1\<close> entries have been added to a new monitor, the window holds exactly the last
  \<open>W\<close> of them, and \<open>get_current_stats\<close> reports what it reports when the oldest entry
  was never added (total \<open>W\<close>, the errors among the last \<open>W\<close>).
\<close>

theorem window_bounded_and_evicts_oldest:
  "window_inv (ErrorRateMonitor_init W t)
   \<and> (window_inv m \<longrightarrow> window_inv (snd (add_request m c)))
   \<and> length (items (requests (snd (add_requests (ErrorRateMonitor_init W t) cs)))) \<le> W
   \<and> (length rest = W \<longrightarrow>
        (let m' = snd (add_requests (ErrorRateMonitor_init W t) (oldest # rest))
         in items (requests m') = rest
            \<and> length (items (requests m')) = W
            \<and> get_current_stats m' =
                get_current_stats (snd (add_requests (ErrorRateMonitor_init W t) rest))
            \<and> total (get_current_stats m') = W
            \<and> errors (get_current_stats m') = error_count rest))"
proof -
  have bounded: "length (items (requests (snd (add_requests (ErrorRateMonitor_init W t) cs)))) \<le> W"
    by (simp add: items_add_requests_init length_keep_last)
  have evict: "length rest = W \<Longrightarrow>
      items (requests (snd (add_requests (ErrorRateMonitor_init W t) (oldest # rest)))) = rest"
    unfolding items_add_requests_init by (simp add: keep_last_def)
  have same: "length rest = W \<Longrightarrow>
      items (requests (snd (add_requests (ErrorRateMonitor_init W t) rest))) = rest"
    unfolding items_add_requests_init by (simp add: keep_last_def)
  have stats: "length rest = W \<Longrightarrow> items (requests m') = rest \<Longrightarrow>
      total (get_current_stats m') = W \<and> errors (get_current_stats m') = error_count rest" for m'
    by (auto simp: get_current_stats_def Let_def error_count_def)
  show ?thesis
    using window_inv_init [of W t] window_inv_add_request [of m c] bounded evict same
      get_current_stats_items stats
    by (metis (no_types, lifting))
qed

theorem window_bounded_and_evicts_oldest_witness:
  "window_inv (ErrorRateMonitor_init 2 (Fin 2))
   \<and> window_inv (snd (add_request (ErrorRateMonitor_init 2 (Fin 2)) 200))
   \<and> length [200, 500 :: int] = 2
   \<and> items (requests (snd (add_requests (ErrorRateMonitor_init 2 (Fin 2)) [503, 200, 500])))
       = [200, 500]
   \<and> total (get_current_stats
        (snd (add_requests (ErrorRateMonitor_init 2 (Fin 2)) [503, 200, 500]))) = 2
   \<and> errors (get_current_stats
        (snd (add_requests (ErrorRateMonitor_init 2 (Fin 2)) [503, 200, 500]))) = 1"
proof -
  have len: "length [200, 500 :: int] = 2"
    by simp
  have ec: "error_count [200, 500] = 1"
    by (simp add: error_count_def)
  show ?thesis
    using len ec window_bounded_and_evicts_oldest
      [of 2 "Fin 2" "ErrorRateMonitor_init 2 (Fin 2)" 200 "[]" "[200, 500]" 503,
       unfolded Let_def]
    by metis
qed




subsection \<open>The rounding error of binary64\<close>

lemma pow2_powi: "pow2 e = 2 powi e"
  by (simp add: pow2_def power_int_def inverse_eq_divide power_divide)

lemma pow2_pos: "0 < pow2 e"
  by (simp add: pow2_powi)

lemma pow2_add: "pow2 (a + b) = pow2 a * pow2 b"
  by (simp add: pow2_powi power_int_add)

lemma pow2_nonneg_exp: "0 \<le> e \<Longrightarrow> pow2 e = of_int (2 ^ nat e)"
  by (simp add: pow2_def)

lemma bit_length_bounds:
  "0 < n \<Longrightarrow> 1 \<le> bit_length n \<and> 2 ^ nat (bit_length n - 1) \<le> n \<and> n < 2 ^ nat (bit_length n)"
proof (induction n rule: bit_length.induct)
  case (1 n)
  show ?case
  proof (cases "n div 2 = 0")
    case True
    with "1.prems" have n: "n = 1" by presburger
    have "bit_length (0::int) = 0" by (simp add: bit_length.simps)
    then have "bit_length 1 = 1" by (subst bit_length.simps) simp
    with n show ?thesis by simp
  next
    case False
    with "1.prems" have h: "0 < n div 2" by presburger
    let ?k = "bit_length (n div 2)"
    from "1.IH" "1.prems" h
    have k: "1 \<le> ?k" and lo: "2 ^ nat (?k - 1) \<le> n div 2" and hi: "n div 2 < 2 ^ nat ?k"
      by simp_all
    have bl: "bit_length n = 1 + ?k"
      using "1.prems" by (subst bit_length.simps) simp
    have p: "(2::int) ^ nat ?k = 2 * 2 ^ nat (?k - 1)"
      using k by (metis Suc_nat_eq_nat_zadd1 add.commute diff_add_cancel diff_ge_0_iff_ge power_Suc)
    have p': "(2::int) ^ nat (1 + ?k) = 2 * 2 ^ nat ?k"
      using k by (simp add: nat_add_distrib)
    have "2 ^ nat ?k \<le> n"
      using lo p by presburger
    moreover have "n < 2 ^ nat (1 + ?k)"
      using hi p' by presburger
    ultimately show ?thesis
      using k bl by simp
  qed
qed

lemma bit_length_rat_bounds:
  assumes "0 < a"
  shows "pow2 (bit_length a - 1) \<le> of_int a" and "of_int a < pow2 (bit_length a)"
proof -
  from bit_length_bounds [OF assms]
  have k: "1 \<le> bit_length a" and lo: "2 ^ nat (bit_length a - 1) \<le> a"
    and hi: "a < 2 ^ nat (bit_length a)"
    by simp_all
  have "pow2 (bit_length a - 1) = of_int (2 ^ nat (bit_length a - 1))"
    using k by (intro pow2_nonneg_exp) simp
  also have "\<dots> \<le> of_int a"
    using lo by (simp only: of_int_le_iff)
  finally show "pow2 (bit_length a - 1) \<le> of_int a" .
  have "(of_int a :: rat) < of_int (2 ^ nat (bit_length a))"
    using hi by (simp only: of_int_less_iff)
  also have "\<dots> = pow2 (bit_length a)"
    using k by (intro pow2_nonneg_exp [symmetric]) simp
  finally show "of_int a < pow2 (bit_length a)" .
qed

lemma ilog2_bounds:
  assumes "0 < q"
  shows "pow2 (ilog2 q) \<le> q" and "q < pow2 (ilog2 q + 1)"
proof -
  obtain a b where ab: "quotient_of q = (a, b)" by (cases "quotient_of q")
  then have b: "0 < b" by (rule quotient_of_denom_pos)
  have q: "q = of_int a / of_int b" using ab by (rule quotient_of_div)
  have a: "0 < a"
    using assms b q by (simp add: zero_less_divide_iff)
  let ?d = "bit_length a - bit_length b"
  note A = bit_length_rat_bounds [OF a] and B = bit_length_rat_bounds [OF b]
  have bpos: "(0::rat) < of_int b" using b by simp
  have "q < pow2 (bit_length a) / pow2 (bit_length b - 1)"
    unfolding q using A(2) B(1) a pow2_pos [of "bit_length b - 1"]
    by (intro frac_less) auto
  also have "\<dots> = pow2 (?d + 1)"
    using pow2_add [of "?d + 1" "bit_length b - 1"] pow2_pos [of "bit_length b - 1"]
    by (simp add: field_simps)
  finally have up: "q < pow2 (?d + 1)" .
  have "pow2 (bit_length a - 1) / pow2 (bit_length b) < q"
    unfolding q using A(1) B(2) bpos pow2_pos [of "bit_length a - 1"]
    by (intro frac_less2) (auto simp: less_imp_le)
  moreover have "pow2 (bit_length a - 1) / pow2 (bit_length b) = pow2 (?d - 1)"
    using pow2_add [of "?d - 1" "bit_length b"] pow2_pos [of "bit_length b"]
    by (simp add: field_simps)
  ultimately have low: "pow2 (?d - 1) < q" by simp
  have il: "ilog2 q = (if pow2 ?d \<le> q then ?d else ?d - 1)"
    by (simp add: ilog2_def ab Let_def)
  show "pow2 (ilog2 q) \<le> q"
    using low by (simp add: il)
  show "q < pow2 (ilog2 q + 1)"
    using up by (auto simp: il not_le)
qed

lemma round_half_even_error: "\<bar>of_int (round_half_even x) - x\<bar> \<le> 1 / 2"
proof -
  have "of_int \<lfloor>x\<rfloor> \<le> x" and "x < of_int \<lfloor>x\<rfloor> + 1"
    by linarith+
  then show ?thesis
    by (auto simp: round_half_even_def Let_def)
qed

lemma binary64_error:
  assumes "0 < q"
  shows "\<bar>binary64 q - q\<bar> \<le> q / 2 ^ 53"
proof -
  define ulp where "ulp = pow2 (ilog2 q - 52)"
  define r where "r = round_half_even (q / ulp)"
  have ulp: "0 < ulp"
    unfolding ulp_def by (rule pow2_pos)
  have b: "binary64 q = of_int r * ulp"
    using assms by (simp add: binary64_def Let_def ulp_def r_def)
  have "of_int r * ulp - q = (of_int r - q / ulp) * ulp"
    using ulp by (simp add: field_simps)
  then have "\<bar>of_int r * ulp - q\<bar> = \<bar>of_int r - q / ulp\<bar> * ulp"
    using ulp by (simp add: abs_mult)
  moreover have "\<bar>of_int r - q / ulp\<bar> * ulp \<le> 1 / 2 * ulp"
    unfolding r_def using round_half_even_error [of "q / ulp"] ulp
    by (intro mult_right_mono) auto
  ultimately have e1: "\<bar>binary64 q - q\<bar> \<le> ulp / 2"
    by (simp add: b)
  have "ulp = pow2 (ilog2 q) * pow2 (- 52)"
    unfolding ulp_def using pow2_add [of "ilog2 q" "- 52"] by simp
  then have ulp_eq: "ulp = pow2 (ilog2 q) / 2 ^ 52"
    by (simp add: pow2_def)
  have "ulp / 2 = pow2 (ilog2 q) / 2 ^ 53"
    by (simp add: ulp_eq)
  also have "\<dots> \<le> q / 2 ^ 53"
    using ilog2_bounds(1) [OF assms] by (simp add: divide_right_mono)
  finally show ?thesis
    using e1 by simp
qed

lemma binary64_zero: "binary64 0 = 0"
  by (simp add: binary64_def)

lemma binary64_bounds:
  assumes "0 \<le> q"
  shows "q * (1 - 1 / 2 ^ 53) \<le> binary64 q" and "binary64 q \<le> q * (1 + 1 / 2 ^ 53)"
proof -
  have "\<bar>binary64 q - q\<bar> \<le> q / 2 ^ 53"
  proof (cases "q = 0")
    case True
    then show ?thesis by (simp add: binary64_zero)
  next
    case False
    with assms have "0 < q" by simp
    then show ?thesis by (rule binary64_error)
  qed
  then have "binary64 q - q \<le> q / 2 ^ 53" and "q - binary64 q \<le> q / 2 ^ 53"
    by linarith+
  then show "q * (1 - 1 / 2 ^ 53) \<le> binary64 q" and "binary64 q \<le> q * (1 + 1 / 2 ^ 53)"
    by (simp_all add: algebra_simps)
qed

lemma float_rate_bounds:
  fixes c n :: nat
  defines "E \<equiv> of_nat c / of_nat n * (100 :: rat)"
  defines "R \<equiv> float_mul (int_truediv c n) 100"
  shows "E * (1 - 1 / 2 ^ 51) \<le> R" and "R \<le> E * (1 + 1 / 2 ^ 51)"
proof -
  define q :: rat where "q = of_nat c / of_nat n"
  define D where "D = binary64 q"
  have q: "0 \<le> q" by (simp add: q_def)
  note Dq = binary64_bounds [OF q, folded D_def]
  have "0 \<le> q * (1 - 1 / 2 ^ 53)"
    using q by (intro mult_nonneg_nonneg) simp_all
  with Dq(1) have D: "0 \<le> D" by linarith
  then have D100: "0 \<le> D * 100" by simp
  have R: "R = binary64 (D * 100)"
    by (simp add: R_def float_mul_def int_truediv_def D_def q_def)
  note RD = binary64_bounds [OF D100, folded R]
  have E: "E = q * 100" by (simp add: E_def q_def)
  have "E * (1 - 1 / 2 ^ 51) \<le> q * 100 * ((1 - 1 / 2 ^ 53) * (1 - 1 / 2 ^ 53))"
    unfolding E using q by (intro mult_left_mono) simp_all
  also have "\<dots> = q * (1 - 1 / 2 ^ 53) * 100 * (1 - 1 / 2 ^ 53)"
    by (simp add: algebra_simps)
  also have "\<dots> \<le> D * 100 * (1 - 1 / 2 ^ 53)"
    using Dq(1) by (intro mult_right_mono) simp_all
  also have "\<dots> \<le> R"
    by (rule RD(1))
  finally show "E * (1 - 1 / 2 ^ 51) \<le> R" .
  have "R \<le> D * 100 * (1 + 1 / 2 ^ 53)"
    by (rule RD(2))
  also have "\<dots> \<le> q * (1 + 1 / 2 ^ 53) * 100 * (1 + 1 / 2 ^ 53)"
    using Dq(2) by (intro mult_right_mono) simp_all
  also have "\<dots> = q * 100 * ((1 + 1 / 2 ^ 53) * (1 + 1 / 2 ^ 53))"
    by (simp add: algebra_simps)
  also have "\<dots> \<le> E * (1 + 1 / 2 ^ 51)"
    unfolding E using q by (intro mult_left_mono) simp_all
  finally show "R \<le> E * (1 + 1 / 2 ^ 51)" .
qed

subsection \<open>The breach condition\<close>

lemma rate_3_of_100: "float_mul (int_truediv 3 100) 100 = 3"
  by code_simp

lemma rate_7_of_100: "float_mul (int_truediv 7 100) 100 = 7 + 1 / 2 ^ 50"
  by code_simp

lemma rate_57_of_100: "float_mul (int_truediv 57 100) 100 = 57 - 1 / 2 ^ 47"
  by code_simp

text \<open>
  Claim C2, as amended. When the window holds at least 50 entries after the append,
  \<open>add_request\<close> returns \<open>True\<close> exactly when the error rate as the program computes it,
  in binary64 with the quotient \<open>count / len\<close> rounded and then its product with 100 rounded,
  is strictly greater than the threshold. That number lies within the relative error
  \<open>1 / 2 ^ 51\<close> of the exact rate \<open>count / len * 100\<close>: the call returns \<open>True\<close> whenever the
  threshold is below the exact rate by more than that, and returns \<open>True\<close> only if the
  threshold is below the exact rate enlarged by that. A threshold that is NaN or infinite
  upwards never gives a breach. With 100 entries in the window, 3 of them at least 500, and
  the threshold 2.0, the call returns \<open>True\<close>.
\<close>

theorem add_request_breach_within_rounding:
  assumes "50 \<le> length (items (requests (snd (add_request m status_code))))"
  shows "(let xs = items (requests (snd (add_request m status_code)));
              breach = fst (add_request m status_code)
          in breach = float_gt (float_mul (int_truediv (error_count xs) (length xs)) 100)
                        (threshold_percent m)
             \<and> (\<forall>t. threshold_percent m = Fin t \<longrightarrow>
                    (t < spec_errorRate xs * (1 - 1 / 2 ^ 51) \<longrightarrow> breach)
                    \<and> (breach \<longrightarrow> t < spec_errorRate xs * (1 + 1 / 2 ^ 51)))
             \<and> (threshold_percent m = NaN \<or> threshold_percent m = PosInf \<longrightarrow> \<not> breach)
             \<and> (threshold_percent m = NegInf \<longrightarrow> breach)
             \<and> (length xs = 100 \<and> error_count xs = 3 \<and> threshold_percent m = Fin 2 \<longrightarrow>
                    breach))"
proof -
  define xs where "xs = items (requests (snd (add_request m status_code)))"
  define R where "R = float_mul (int_truediv (error_count xs) (length xs)) 100"
  have xs: "xs = items (deque_append (requests m) status_code)"
    by (simp add: xs_def snd_add_request)
  have breach: "fst (add_request m status_code) = float_gt R (threshold_percent m)"
    using assms by (simp add: fst_add_request xs [symmetric] R_def xs_def Let_def)
  have E: "spec_errorRate xs = of_nat (error_count xs) / of_nat (length xs) * 100"
    by (simp add: spec_errorRate_def error_count_def)
  note b = float_rate_bounds [of "error_count xs" "length xs", folded R_def E]
  have sandwich: "threshold_percent m = Fin t \<longrightarrow>
      (t < spec_errorRate xs * (1 - 1 / 2 ^ 51) \<longrightarrow> fst (add_request m status_code))
      \<and> (fst (add_request m status_code) \<longrightarrow> t < spec_errorRate xs * (1 + 1 / 2 ^ 51))" for t
    using b by (auto simp: breach)
  have special: "(threshold_percent m = NaN \<or> threshold_percent m = PosInf \<longrightarrow>
        \<not> fst (add_request m status_code))
      \<and> (threshold_percent m = NegInf \<longrightarrow> fst (add_request m status_code))"
    by (auto simp: breach)
  have example: "length xs = 100 \<and> error_count xs = 3 \<and> threshold_percent m = Fin 2 \<longrightarrow>
      fst (add_request m status_code)"
    by (auto simp: breach R_def rate_3_of_100)
  show ?thesis
    unfolding Let_def xs_def [symmetric]
    using breach [unfolded R_def] sandwich special example by blast
qed

lemma three_percent_window:
  "items (requests (snd (add_request three_percent_monitor 503)))
     = replicate 97 200 @ [500, 502, 503]"
  by (simp add: snd_add_request deque_append_def three_percent_monitor_def Let_def)

lemma seven_percent_window:
  "items (requests (snd (add_request seven_percent_monitor 500)))
     = replicate 93 200 @ replicate 6 500 @ [500]"
  by (simp add: snd_add_request deque_append_def seven_percent_monitor_def Let_def)

lemma fifty_seven_percent_window:
  "items (requests (snd (add_request fifty_seven_percent_monitor 500)))
     = replicate 43 200 @ replicate 56 500 @ [500]"
  by (simp add: snd_add_request deque_append_def fifty_seven_percent_monitor_def Let_def)

theorem add_request_breach_within_rounding_witness:
  "50 \<le> length (items (requests (snd (add_request three_percent_monitor 503))))
   \<and> length (items (requests (snd (add_request three_percent_monitor 503)))) = 100
   \<and> error_count (items (requests (snd (add_request three_percent_monitor 503)))) = 3
   \<and> threshold_percent three_percent_monitor = Fin 2
   \<and> spec_errorRate (items (requests (snd (add_request three_percent_monitor 503)))) = 3
   \<and> 2 < spec_errorRate (items (requests (snd (add_request three_percent_monitor 503))))
           * (1 - 1 / 2 ^ 51)
   \<and> fst (add_request three_percent_monitor 503) = True
   \<and> 2 < spec_errorRate (items (requests (snd (add_request three_percent_monitor 503))))
           * (1 + 1 / 2 ^ 51)"
proof -
  let ?xs = "items (requests (snd (add_request three_percent_monitor 503)))"
  have len: "length ?xs = 100"
    unfolding three_percent_window by simp
  then have floor: "50 \<le> length ?xs"
    by simp
  have errs: "error_count ?xs = 3"
    unfolding three_percent_window by (simp add: error_count_def)
  have thr: "threshold_percent three_percent_monitor = Fin 2"
    by (simp add: three_percent_monitor_def)
  have rate: "spec_errorRate ?xs = 3"
    unfolding three_percent_window by (simp add: spec_errorRate_def)
  have below: "2 < spec_errorRate ?xs * (1 - 1 / 2 ^ 51)"
    unfolding rate by simp
  note t = add_request_breach_within_rounding [OF floor, unfolded Let_def]
  from t thr below have breach: "fst (add_request three_percent_monitor 503) = True"
    by blast
  from t thr breach have above: "2 < spec_errorRate ?xs * (1 + 1 / 2 ^ 51)"
    by blast
  show ?thesis
    by (intro conjI) (fact floor len errs thr rate below breach above)+
qed

text \<open>
  Claim C2 as stated, with the rate as the exact number, fails in both directions: with 7
  failed requests among 100 and the threshold 7.0 the call returns \<open>True\<close> although 7 is
  not greater than 7, and with 57 among 100 and the threshold 56.99999999999999 it returns
  \<open>False\<close> although 57 is greater.
\<close>

theorem exact_rate_counterexample:
  "length (items (requests (snd (add_request seven_percent_monitor 500)))) = 100
   \<and> threshold_percent seven_percent_monitor = Fin 7
   \<and> spec_errorRate (items (requests (snd (add_request seven_percent_monitor 500)))) = 7
   \<and> fst (add_request seven_percent_monitor 500) = True
   \<and> fst (add_request seven_percent_monitor 500)
       \<noteq> (7 < spec_errorRate (items (requests (snd (add_request seven_percent_monitor 500)))))
   \<and> length (items (requests (snd (add_request fifty_seven_percent_monitor 500)))) = 100
   \<and> threshold_percent fifty_seven_percent_monitor = Fin (57 - 1 / 2 ^ 47)
   \<and> spec_errorRate (items (requests (snd (add_request fifty_seven_percent_monitor 500)))) = 57
   \<and> fst (add_request fifty_seven_percent_monitor 500) = False
   \<and> fst (add_request fifty_seven_percent_monitor 500)
       \<noteq> (57 - 1 / 2 ^ 47
            < spec_errorRate (items (requests (snd (add_request fifty_seven_percent_monitor 500)))))"
proof -
  let ?xs = "items (requests (snd (add_request seven_percent_monitor 500)))"
  let ?ys = "items (requests (snd (add_request fifty_seven_percent_monitor 500)))"
  have len7: "length ?xs = 100"
    unfolding seven_percent_window by simp
  have thr7: "threshold_percent seven_percent_monitor = Fin 7"
    by (simp add: seven_percent_monitor_def)
  have rate7: "spec_errorRate ?xs = 7"
    unfolding seven_percent_window by (simp add: spec_errorRate_def)
  have cnt7: "error_count (items (deque_append (requests seven_percent_monitor) 500)) = 7"
    and n7: "length (items (deque_append (requests seven_percent_monitor) 500)) = 100"
    using seven_percent_window by (simp_all add: snd_add_request error_count_def)
  have breach7: "fst (add_request seven_percent_monitor 500) = True"
    by (simp add: fst_add_request Let_def cnt7 n7 rate_7_of_100 thr7)
  have differ7: "fst (add_request seven_percent_monitor 500) \<noteq> (7 < spec_errorRate ?xs)"
    by (simp add: breach7 rate7)
  have len57: "length ?ys = 100"
    unfolding fifty_seven_percent_window by simp
  have thr57: "threshold_percent fifty_seven_percent_monitor = Fin (57 - 1 / 2 ^ 47)"
    by (simp add: fifty_seven_percent_monitor_def)
  have rate57: "spec_errorRate ?ys = 57"
    unfolding fifty_seven_percent_window by (simp add: spec_errorRate_def)
  have cnt57: "error_count (items (deque_append (requests fifty_seven_percent_monitor) 500)) = 57"
    and n57: "length (items (deque_append (requests fifty_seven_percent_monitor) 500)) = 100"
    using fifty_seven_percent_window by (simp_all add: snd_add_request error_count_def)
  have breach57: "fst (add_request fifty_seven_percent_monitor 500) = False"
    by (simp add: fst_add_request Let_def cnt57 n57 rate_57_of_100 thr57)
  have differ57: "fst (add_request fifty_seven_percent_monitor 500)
      \<noteq> (57 - 1 / 2 ^ 47 < spec_errorRate ?ys)"
    by (simp add: breach57 rate57)
  show ?thesis
    by (intro conjI)
      (fact len7 thr7 rate7 breach7 differ7 len57 thr57 rate57 breach57 differ57)+
qed

section \<open>Properties of PoolTracker\<close>

lemma valid_pool_normalised:
  "s = ''blue'' \<or> s = ''green'' \<Longrightarrow> py_strip (py_lower s) = s"
  by (auto simp: py_strip_def py_lower_def py_lower_char_def py_isspace_def)

text \<open>
  Claim C8. \<open>update_pool\<close> called with \<open>None\<close>, or with a string that does not become
  \<open>blue\<close> or \<open>green\<close> when lowered and stripped, returns \<open>None\<close> and leaves the
  tracker (current pool and recent pools) as it was. The same holds for every string that is
  not \<open>blue\<close> or \<open>green\<close> itself, since \<open>update_pool\<close> does not normalise its argument.
\<close>

theorem update_pool_ignores_invalid:
  assumes "pool = None
    \<or> (\<exists>s. pool = Some s
          \<and> (py_strip (py_lower s) \<notin> {''blue'', ''green''} \<or> s \<notin> {''blue'', ''green''}))"
  shows "update_pool pt pool = (None, pt)"
proof (cases pool)
  case None
  then show ?thesis by (simp add: update_pool_def)
next
  case (Some s)
  with assms have "py_strip (py_lower s) \<notin> {''blue'', ''green''} \<or> s \<notin> {''blue'', ''green''}"
    by auto
  with valid_pool_normalised [of s] have "s \<noteq> ''blue'' \<and> s \<noteq> ''green''" by auto
  with Some show ?thesis by (simp add: update_pool_def)
qed

theorem update_pool_ignores_invalid_witness:
  "py_strip (py_lower '' Yellow'') \<notin> {''blue'', ''green''} \<and>
   update_pool PoolTracker_init (Some '' Yellow'') = (None, PoolTracker_init) \<and>
   update_pool PoolTracker_init None = (None, PoolTracker_init)"
proof -
  have h: "py_strip (py_lower '' Yellow'') \<notin> {''blue'', ''green''}"
    by (simp add: py_strip_def py_lower_def py_lower_char_def py_isspace_def)
  show ?thesis
    using h update_pool_ignores_invalid [of "Some '' Yellow''" PoolTracker_init]
      update_pool_ignores_invalid [of None PoolTracker_init]
    by simp
qed

lemma update_pool_valid:
  "p = ''blue'' \<or> p = ''green'' \<Longrightarrow>
   update_pool pt (Some p) =
     (if truthy (current_pool pt) \<and> current_pool pt \<noteq> Some p then current_pool pt else None,
      pt\<lparr>current_pool := Some p, last_seen_pools := deque_append (last_seen_pools pt) p\<rparr>)"
  by (auto simp: update_pool_def Let_def)

lemma fst_update_pools_Cons:
  "fst (update_pools pt (p # ps)) =
     fst (update_pool pt p) # fst (update_pools (snd (update_pool pt p)) ps)"
  by (simp split: prod.splits)

lemma snd_update_pools_Cons:
  "snd (update_pools pt (p # ps)) = snd (update_pools (snd (update_pool pt p)) ps)"
  by (simp split: prod.splits)

declare update_pools.simps(2) [simp del]
declare fst_update_pools_Cons [simp] snd_update_pools_Cons [simp]

lemma update_pools_take:
  "i < length ps \<Longrightarrow>
   fst (update_pools pt ps) ! i = fst (update_pool (snd (update_pools pt (take i ps))) (ps ! i))"
proof (induction ps arbitrary: pt i)
  case Nil
  then show ?case by simp
next
  case (Cons p ps)
  show ?case
  proof (cases i)
    case 0
    then show ?thesis by (simp add: fst_update_pools_Cons)
  next
    case (Suc j)
    with Cons.prems have "j < length ps" by simp
    from Cons.IH [OF this] Suc show ?thesis
      by (simp add: fst_update_pools_Cons snd_update_pools_Cons)
  qed
qed

lemma current_pool_update_pools:
  "set ps \<subseteq> {''blue'', ''green''} \<Longrightarrow>
   current_pool (snd (update_pools pt (map Some ps))) =
     (if ps = [] then current_pool pt else Some (last ps))"
proof (induction ps arbitrary: pt)
  case Nil
  then show ?case by simp
next
  case (Cons p ps)
  then have p: "p = ''blue'' \<or> p = ''green''" and ps: "set ps \<subseteq> {''blue'', ''green''}"
    by auto
  show ?case
    using Cons.IH [OF ps]
    by (simp add: update_pool_valid [OF p])
qed

text \<open>
  Claim C1. In every sequence of \<open>update_pool\<close> calls with valid pool names, started on a
  new tracker, a call returns a pool exactly when the current pool was set before the call and
  differs from the new name, and then it returns that previous pool, which is the name given
  to the call before. The first call returns \<open>None\<close>, and so does a call that repeats the
  current pool.
\<close>

theorem update_pool_previous_iff_changed:
  assumes "set ps \<subseteq> {''blue'', ''green''}" and "i < length ps"
  shows "(let pt = snd (update_pools PoolTracker_init (map Some (take i ps)));
              r = fst (update_pool pt (Some (ps ! i)))
          in r = (if current_pool pt \<noteq> None \<and> current_pool pt \<noteq> Some (ps ! i)
                  then current_pool pt else None)
             \<and> current_pool pt = (if i = 0 then None else Some (ps ! (i - 1)))
             \<and> fst (update_pools PoolTracker_init (map Some ps)) ! i = r
             \<and> (i = 0 \<longrightarrow> r = None)
             \<and> (current_pool pt = Some (ps ! i) \<longrightarrow> r = None))"
proof -
  define pt where "pt = snd (update_pools PoolTracker_init (map Some (take i ps)))"
  have valid: "ps ! i = ''blue'' \<or> ps ! i = ''green''"
    using assms by (auto dest: nth_mem)
  have "set (take i ps) \<subseteq> {''blue'', ''green''}"
    using assms(1) by (meson set_take_subset subset_trans)
  from current_pool_update_pools [OF this]
  have cur: "current_pool pt = (if i = 0 then None else Some (ps ! (i - 1)))"
    using assms(2) by (auto simp: pt_def PoolTracker_init_def last_conv_nth min_def)
  have "ps ! (i - 1) \<in> set ps"
    using assms(2) by (intro nth_mem) simp
  with assms(1) have "ps ! (i - 1) \<noteq> []" by auto
  with cur have tr: "truthy (current_pool pt) = (current_pool pt \<noteq> None)"
    by simp
  have nth: "fst (update_pools PoolTracker_init (map Some ps)) ! i
      = fst (update_pool pt (Some (ps ! i)))"
    using update_pools_take [of i "map Some ps" PoolTracker_init] assms(2)
    by (simp add: pt_def take_map)
  have r: "fst (update_pool pt (Some (ps ! i)))
      = (if current_pool pt \<noteq> None \<and> current_pool pt \<noteq> Some (ps ! i)
         then current_pool pt else None)"
    using tr by (simp add: update_pool_valid [OF valid])
  have first: "i = 0 \<longrightarrow> fst (update_pool pt (Some (ps ! i))) = None"
    using r cur by (cases "i = 0") simp_all
  have same: "current_pool pt = Some (ps ! i) \<longrightarrow> fst (update_pool pt (Some (ps ! i))) = None"
    using r by simp
  show ?thesis
    unfolding Let_def pt_def [symmetric]
    using r cur nth first same by blast
qed

theorem update_pool_previous_iff_changed_witness:
  "set [''blue'', ''green'', ''green''] \<subseteq> {''blue'', ''green''}
   \<and> (0::nat) < length [''blue'', ''green'', ''green'']
   \<and> (2::nat) < length [''blue'', ''green'', ''green'']
   \<and> fst (update_pools PoolTracker_init (map Some [''blue'', ''green'', ''green'']))
       = [None, Some ''blue'', None]
   \<and> fst (update_pools PoolTracker_init (map Some [''blue'', ''green'', ''green''])) ! 1
       = fst (update_pool
               (snd (update_pools PoolTracker_init
                      (map Some (take 1 [''blue'', ''green'', ''green'']))))
               (Some ([''blue'', ''green'', ''green''] ! 1)))"
  using update_pool_previous_iff_changed [of "[''blue'', ''green'', ''green'']" 0]
    update_pool_previous_iff_changed [of "[''blue'', ''green'', ''green'']" 1]
    update_pool_previous_iff_changed [of "[''blue'', ''green'', ''green'']" 2]
  by (simp add: update_pool_def PoolTracker_init_def deque_append_def deque_new_def Let_def)


section \<open>Properties of AlertManager\<close>

text \<open>
  Claim C3. For every alert kind: a call that finds no timestamp for the kind returns
  \<open>True\<close> and records the time of the call; a later call returns \<open>True\<close> exactly when the
  time since the recorded timestamp is strictly greater than the cooldown, and refreshes the
  timestamp exactly then. Hence, for a cooldown that is not negative, two calls at the same
  instant return \<open>True\<close> then \<open>False\<close>, and a call more than the cooldown later returns
  \<open>True\<close> again. (The cooldown is taken in the range of \<^verbatim>\<open>timedelta\<close>, as the default
  of 300 seconds is.)
\<close>

theorem should_alert_cooldown:
  "(last_alerts am kind = None \<longrightarrow>
      should_alert now am kind =
        (Inr True, am\<lparr>last_alerts := (last_alerts am)(kind \<mapsto> now)\<rparr>))
   \<and> (\<forall>last. last_alerts am kind = Some last \<and> timedelta_in_range (cooldown_seconds am) \<longrightarrow>
          should_alert now am kind =
            (if cooldown_seconds am * 1000000 < now - last
             then (Inr True, am\<lparr>last_alerts := (last_alerts am)(kind \<mapsto> now)\<rparr>)
             else (Inr False, am)))
   \<and> (last_alerts am kind = None \<and> 0 \<le> cooldown_seconds am
        \<and> timedelta_in_range (cooldown_seconds am)
        \<and> cooldown_seconds am * 1000000 < later - now \<longrightarrow>
        (case should_alert now am kind of (r1, am1) \<Rightarrow>
         case should_alert now am1 kind of (r2, am2) \<Rightarrow>
         case should_alert later am2 kind of (r3, am3) \<Rightarrow>
           r1 = Inr True \<and> r2 = Inr False \<and> r3 = Inr True
           \<and> last_alerts am2 kind = Some now \<and> last_alerts am3 kind = Some later))"
  by (simp add: should_alert_def timedelta_seconds_def)

theorem should_alert_cooldown_witness:
  "last_alerts (AlertManager_init 300) ''failover'' = None
   \<and> 0 \<le> cooldown_seconds (AlertManager_init 300)
   \<and> timedelta_in_range (cooldown_seconds (AlertManager_init 300))
   \<and> cooldown_seconds (AlertManager_init 300) * 1000000 < 300000001 - 0
   \<and> (case should_alert 0 (AlertManager_init 300) ''failover'' of (r1, am1) \<Rightarrow>
       case should_alert 0 am1 ''failover'' of (r2, am2) \<Rightarrow>
       case should_alert 300000001 am2 ''failover'' of (r3, am3) \<Rightarrow>
         r1 = Inr True \<and> r2 = Inr False \<and> r3 = Inr True
         \<and> last_alerts am2 ''failover'' = Some 0 \<and> last_alerts am3 ''failover'' = Some 300000001)
   \<and> last_alerts \<lparr>cooldown_seconds = 300, last_alerts = [''failover'' \<mapsto> 0]\<rparr> ''failover'' = Some 0
   \<and> fst (should_alert 300000000 \<lparr>cooldown_seconds = 300, last_alerts = [''failover'' \<mapsto> 0]\<rparr> ''failover'')
       = Inr False"
  using should_alert_cooldown [of "AlertManager_init 300" "''failover''" 0 300000001]
    should_alert_cooldown [of "\<lparr>cooldown_seconds = 300, last_alerts = [''failover'' \<mapsto> 0]\<rparr>"
      "''failover''" 300000000 0]
  by (simp add: AlertManager_init_def timedelta_in_range_def should_alert_def timedelta_seconds_def)

section \<open>Properties of LogWatcher\<close>

lemma fst_process_entries_Cons:
  "fst (process_entries w ((env, entry) # es)) =
     fst (process_entries (fst (process_log_entry env w entry)) es)"
  by (simp split: prod.splits)

lemma snd_process_entries_Cons:
  "snd (process_entries w ((env, entry) # es)) =
     snd (process_log_entry env w entry) @
     snd (process_entries (fst (process_log_entry env w entry)) es)"
  by (simp split: prod.splits)

declare process_entries.simps(2) [simp del]
declare fst_process_entries_Cons [simp] snd_process_entries_Cons [simp]

lemma alerts_of_append: "alerts_of (xs @ ys) = alerts_of xs @ alerts_of ys"
  by (induction xs rule: alerts_of.induct) simp_all

lemma alerts_of_send_message: "alerts_of (send_message n outcome a) = [a]"
  by (simp add: send_message_def split: option.splits)

subsection \<open>The error-rate block\<close>

lemma track_error_rate_no_breach:
  "\<not> (0 < sc \<and> fst (add_request (error_monitor w) sc)) \<Longrightarrow>
   track_error_rate env w sc =
     (None, if 0 < sc then w\<lparr>error_monitor := snd (add_request (error_monitor w) sc)\<rparr> else w, [])"
  by (auto simp: track_error_rate_def Let_def split: prod.splits)

lemma error_monitor_track_error_rate:
  "error_monitor (fst (snd (track_error_rate env w sc))) =
     (if 0 < sc then snd (add_request (error_monitor w) sc) else error_monitor w)"
  by (auto simp: track_error_rate_def Let_def split: prod.splits sum.splits)

lemma alert_kind_track_error_rate:
  "a \<in> set (alerts_of (snd (snd (track_error_rate env w sc)))) \<Longrightarrow> alert_kind a = ''error_rate''"
  by (auto simp: track_error_rate_def Let_def send_error_rate_alert_def alerts_of_send_message
      split: prod.splits sum.splits option.splits if_splits)

subsection \<open>The failover block\<close>

lemma error_monitor_track_pool_change:
  "error_monitor (fst (snd (track_pool_change env w pool))) = error_monitor w"
  by (auto simp: track_pool_change_def Let_def split: prod.splits sum.splits option.splits)

lemma alert_kind_track_pool_change:
  "a \<in> set (alerts_of (snd (snd (track_pool_change env w pool)))) \<Longrightarrow> alert_kind a = ''failover''"
  by (auto simp: track_pool_change_def Let_def send_failover_alert_def alerts_of_send_message
      split: prod.splits sum.splits option.splits if_splits)

subsection \<open>One entry\<close>

lemma fst_process_fields:
  "fst (process_fields env w sc pool) =
     (case fst (track_error_rate env w sc) of
        Some e \<Rightarrow> fst (snd (track_error_rate env w sc))
      | None \<Rightarrow> fst (snd (track_pool_change env (fst (snd (track_error_rate env w sc))) pool)))"
  by (simp add: process_fields_def split: prod.splits option.splits)

lemma alerts_of_process_fields:
  "alerts_of (snd (process_fields env w sc pool)) =
     alerts_of (snd (snd (track_error_rate env w sc))) @
     (case fst (track_error_rate env w sc) of
        Some e \<Rightarrow> []
      | None \<Rightarrow>
          alerts_of (snd (snd (track_pool_change env (fst (snd (track_error_rate env w sc))) pool))))"
  by (simp add: process_fields_def alerts_of_append split: prod.splits option.splits)

lemma add_request_small_window:
  "window_inv m \<Longrightarrow> window_size m < 50 \<Longrightarrow> fst (add_request m c) = False"
  using length_deque_append [of "requests m" c]
  by (simp add: fst_add_request window_inv_def Let_def)

lemma add_requests_small_window:
  "window_inv m \<Longrightarrow> window_size m < 50 \<Longrightarrow> b \<in> set (fst (add_requests m cs)) \<Longrightarrow> \<not> b"
proof (induction cs arbitrary: m)
  case Nil
  then show ?case by simp
next
  case (Cons c cs)
  have inv: "window_inv (snd (add_request m c))"
    using Cons.prems(1) by (rule window_inv_add_request)
  have small: "window_size (snd (add_request m c)) < 50"
    using Cons.prems(2) by (simp add: window_size_add_request)
  from Cons.prems(3) have "b = fst (add_request m c) \<or> b \<in> set (fst (add_requests (snd (add_request m c)) cs))"
    by simp
  then show ?case
    using add_request_small_window [OF Cons.prems(1,2), of c] Cons.IH [OF inv small] by blast
qed


lemma small_window_process_fields:
  assumes "small_window w"
  shows "small_window (fst (process_fields env w sc pool))"
    and "a \<in> set (alerts_of (snd (process_fields env w sc pool))) \<Longrightarrow> alert_kind a = ''failover''"
proof -
  have nb: "\<not> (0 < sc \<and> fst (add_request (error_monitor w) sc))"
    using assms add_request_small_window [of "error_monitor w" sc] by (simp add: small_window_def)
  note te = track_error_rate_no_breach [OF nb, of env]
  let ?w1 = "if 0 < sc then w\<lparr>error_monitor := snd (add_request (error_monitor w) sc)\<rparr> else w"
  have sw1: "small_window ?w1"
    using assms by (simp add: small_window_def window_inv_add_request window_size_add_request)
  show "small_window (fst (process_fields env w sc pool))"
    using sw1 by (simp add: fst_process_fields te small_window_def error_monitor_track_pool_change)
  show "a \<in> set (alerts_of (snd (process_fields env w sc pool))) \<Longrightarrow> alert_kind a = ''failover''"
    by (simp add: alerts_of_process_fields te alert_kind_track_pool_change)
qed

lemma small_window_process_log_entry:
  assumes "small_window w"
  shows "small_window (fst (process_log_entry env w entry))"
    and "a \<in> set (alerts_of (snd (process_log_entry env w entry))) \<Longrightarrow> alert_kind a = ''failover''"
  using assms small_window_process_fields(1) [OF assms] small_window_process_fields(2) [OF assms]
  by (auto simp: process_log_entry_def split: sum.splits)

lemma small_window_process_entries:
  "small_window w \<Longrightarrow> a \<in> set (alerts_of (snd (process_entries w es))) \<Longrightarrow>
   alert_kind a = ''failover''"
proof (induction es arbitrary: w)
  case Nil
  then show ?case by simp
next
  case (Cons x es)
  obtain env entry where x: "x = (env, entry)" by (cases x)
  from Cons.prems(2) have "a \<in> set (alerts_of (snd (process_log_entry env w entry)))
      \<or> a \<in> set (alerts_of (snd (process_entries (fst (process_log_entry env w entry)) es)))"
    by (simp add: x alerts_of_append)
  then show ?case
    using small_window_process_log_entry(2) [OF Cons.prems(1)]
      Cons.IH [OF small_window_process_log_entry(1) [OF Cons.prems(1)]]
    by blast
qed

text \<open>
  Claim C10. When the configured window size is below 50, every \<open>add_request\<close> of every
  sequence of calls on a new monitor returns \<open>False\<close>, and a watcher built with that window
  size produces no error-rate alert on any sequence of entries, whatever the status codes, the
  threshold, the clock and the notifier do.
\<close>

theorem small_window_never_alerts:
  assumes "W < 50"
  shows "(\<forall>b \<in> set (fst (add_requests (ErrorRateMonitor_init W t) codes)). \<not> b)
     \<and> (\<forall>a \<in> set (alerts_of (snd (process_entries (LogWatcher_init hook t W cd) entries))).
           alert_kind a \<noteq> ''error_rate'')"
proof -
  have "window_size (ErrorRateMonitor_init W t) < 50"
    using assms by (simp add: ErrorRateMonitor_init_def)
  then have 1: "\<forall>b \<in> set (fst (add_requests (ErrorRateMonitor_init W t) codes)). \<not> b"
    using add_requests_small_window [OF window_inv_init, of W t] by blast
  have "small_window (LogWatcher_init hook t W cd)"
    using assms window_inv_init [of W t]
    by (simp add: small_window_def LogWatcher_init_def ErrorRateMonitor_init_def)
  then have 2: "\<forall>a \<in> set (alerts_of (snd (process_entries (LogWatcher_init hook t W cd) entries))).
           alert_kind a \<noteq> ''error_rate''"
    using small_window_process_entries by fastforce
  from 1 2 show ?thesis by blast
qed

theorem small_window_never_alerts_witness:
  "(10::nat) < 50
   \<and> fst (add_requests (ErrorRateMonitor_init 10 (Fin 0)) [503, 503]) = [False, False]
   \<and> True \<notin> set (fst (add_requests (ErrorRateMonitor_init 10 (Fin 0)) [503, 503]))
   \<and> alerts_of (snd (process_entries (LogWatcher_init None (Fin 0) 10 300)
         [(\<lparr>now_error_rate = 0, now_failover = 0, post_error_rate = None, post_failover = None\<rparr>,
           JObj [(''status'', JInt 503), (''pool'', JStr ''blue'')]),
          (\<lparr>now_error_rate = 1, now_failover = 1, post_error_rate = None, post_failover = None\<rparr>,
           JObj [(''status'', JInt 503), (''pool'', JStr ''green'')])]))
       = [FailoverAlert ''blue'' ''green'']
   \<and> ErrorRateAlert \<lparr>total = 2, errors = 2, error_rate = 100\<rparr>
       \<notin> set (alerts_of (snd (process_entries (LogWatcher_init None (Fin 0) 10 300)
         [(\<lparr>now_error_rate = 0, now_failover = 0, post_error_rate = None, post_failover = None\<rparr>,
           JObj [(''status'', JInt 503), (''pool'', JStr ''blue'')]),
          (\<lparr>now_error_rate = 1, now_failover = 1, post_error_rate = None, post_failover = None\<rparr>,
           JObj [(''status'', JInt 503), (''pool'', JStr ''green'')])])))"
proof -
  have small: "(10::nat) < 50"
    by simp
  have calls: "fst (add_requests (ErrorRateMonitor_init 10 (Fin 0)) [503, 503]) = [False, False]"
    by (simp add: add_request_def ErrorRateMonitor_init_def deque_append_def deque_new_def)
  have run: "alerts_of (snd (process_entries (LogWatcher_init None (Fin 0) 10 300)
         [(\<lparr>now_error_rate = 0, now_failover = 0, post_error_rate = None, post_failover = None\<rparr>,
           JObj [(''status'', JInt 503), (''pool'', JStr ''blue'')]),
          (\<lparr>now_error_rate = 1, now_failover = 1, post_error_rate = None, post_failover = None\<rparr>,
           JObj [(''status'', JInt 503), (''pool'', JStr ''green'')])]))
       = [FailoverAlert ''blue'' ''green'']"
    by (simp add: process_log_entry_def extract_fields_def process_fields_def
        track_error_rate_def track_pool_change_def add_request_def update_pool_def
        should_alert_def LogWatcher_init_def ErrorRateMonitor_init_def PoolTracker_init_def
        AlertManager_init_def deque_append_def deque_new_def py_strip_def py_lower_def
        py_lower_char_def py_isspace_def Let_def)
  let ?results = "fst (add_requests (ErrorRateMonitor_init 10 (Fin 0)) [503, 503])"
  let ?alerts = "alerts_of (snd (process_entries (LogWatcher_init None (Fin 0) 10 300)
         [(\<lparr>now_error_rate = 0, now_failover = 0, post_error_rate = None, post_failover = None\<rparr>,
           JObj [(''status'', JInt 503), (''pool'', JStr ''blue'')]),
          (\<lparr>now_error_rate = 1, now_failover = 1, post_error_rate = None, post_failover = None\<rparr>,
           JObj [(''status'', JInt 503), (''pool'', JStr ''green'')])]))"
  note never = small_window_never_alerts
    [OF small, where t = "Fin 0" and codes = "[503, 503]" and hook = None and cd = 300
       and entries =
         "[(\<lparr>now_error_rate = 0, now_failover = 0, post_error_rate = None, post_failover = None\<rparr>,
            JObj [(''status'', JInt 503), (''pool'', JStr ''blue'')]),
           (\<lparr>now_error_rate = 1, now_failover = 1, post_error_rate = None, post_failover = None\<rparr>,
            JObj [(''status'', JInt 503), (''pool'', JStr ''green'')])]"]
  from never have all_false: "\<forall>b \<in> set ?results. \<not> b"
    by (rule conjunct1)
  from never have all_failover: "\<forall>a \<in> set ?alerts. alert_kind a \<noteq> ''error_rate''"
    by (rule conjunct2)
  have no_true: "True \<notin> set ?results"
  proof
    assume "True \<in> set ?results"
    with all_false have "\<not> True" by (rule bspec)
    then show False by simp
  qed
  have no_alert: "ErrorRateAlert \<lparr>total = 2, errors = 2, error_rate = 100\<rparr> \<notin> set ?alerts"
  proof
    assume "ErrorRateAlert \<lparr>total = 2, errors = 2, error_rate = 100\<rparr> \<in> set ?alerts"
    with all_failover
    have "alert_kind (ErrorRateAlert \<lparr>total = 2, errors = 2, error_rate = 100\<rparr>) \<noteq> ''error_rate''"
      by (rule bspec)
    then show False by simp
  qed
  show ?thesis
    by (intro conjI) (fact small calls no_true run no_alert)+
qed

text \<open>
  Claim C9. An entry without a status field whose pool field is the string \<open>yellow\<close> is
  processed without an error: the watcher (window, pool tracker and cooldown timestamps) is
  exactly as before and there is no effect at all, so no alert of either kind and nothing
  logged.
\<close>

theorem malformed_event_is_inert:
  assumes "map_of kvs ''status'' = None" and "map_of kvs ''pool'' = Some (JStr ''yellow'')"
  shows "process_log_entry env w (JObj kvs) = (w, [])"
proof -
  have y: "py_strip (py_lower ''yellow'') = ''yellow''"
    by (simp add: py_strip_def py_lower_def py_lower_char_def py_isspace_def)
  have ex: "extract_fields (JObj kvs) = Inr (0, ''yellow'')"
    using assms by (simp add: extract_fields_def y)
  have te: "track_error_rate env w 0 = (None, w, [])"
    by (simp add: track_error_rate_def)
  have tp: "track_pool_change env w ''yellow'' = (None, w, [])"
    by (simp add: track_pool_change_def update_pool_def)
  show ?thesis
    by (simp add: process_log_entry_def ex process_fields_def te tp)
qed

theorem malformed_event_is_inert_witness:
  "map_of [(''pool'', JStr ''yellow''), (''upstream_status'', JStr ''200'')] ''status'' = None
   \<and> map_of [(''pool'', JStr ''yellow''), (''upstream_status'', JStr ''200'')] ''pool''
       = Some (JStr ''yellow'')
   \<and> process_log_entry
        \<lparr>now_error_rate = 0, now_failover = 0, post_error_rate = None, post_failover = None\<rparr>
        (LogWatcher_init None (Fin 2) 200 300)
        (JObj [(''pool'', JStr ''yellow''), (''upstream_status'', JStr ''200'')])
       = (LogWatcher_init None (Fin 2) 200 300, [])"
proof -
  have status: "map_of [(''pool'', JStr ''yellow''), (''upstream_status'', JStr ''200'')] ''status''
      = None"
    by simp
  have pool: "map_of [(''pool'', JStr ''yellow''), (''upstream_status'', JStr ''200'')] ''pool''
      = Some (JStr ''yellow'')"
    by simp
  show ?thesis
    using status pool malformed_event_is_inert [OF status pool]
    by blast
qed

lemma process_fields_nothing: "process_fields env w 0 [] = (w, [])"
  by (simp add: process_fields_def track_error_rate_def track_pool_change_def)

text \<open>
  Claim C6, as amended. A field that is missing takes its default, status code 0 and the
  empty pool, and the entry is processed with the fields that remain. A field that is present
  but malformed, a status on which \<^verbatim>\<open>int\<close> raises or a pool that is not a string, makes
  the step log the error and drop the whole entry: the watcher is unchanged and nothing else is
  emitted. The step itself always returns.
\<close>

theorem malformed_event_is_dropped:
  "(map_of kvs ''status'' = None \<and> map_of kvs ''pool'' = None \<longrightarrow>
      process_log_entry env w (JObj kvs) = (w, []))
   \<and> (map_of kvs ''status'' = None \<and> map_of kvs ''pool'' = Some (JStr s) \<longrightarrow>
        process_log_entry env w (JObj kvs) = process_fields env w 0 (py_strip (py_lower s)))
   \<and> (map_of kvs ''status'' = Some v \<and> py_int v = Inr n \<and> map_of kvs ''pool'' = None \<longrightarrow>
        process_log_entry env w (JObj kvs) = process_fields env w n [])
   \<and> (map_of kvs ''status'' = Some v \<and> py_int v = Inl e \<longrightarrow>
        process_log_entry env w (JObj kvs) = (w, [LoggedProcessingError e]))
   \<and> ((map_of kvs ''status'' = None \<or> (map_of kvs ''status'' = Some v \<and> py_int v = Inr n))
        \<and> map_of kvs ''pool'' = Some p \<and> (\<forall>s. p \<noteq> JStr s) \<longrightarrow>
        process_log_entry env w (JObj kvs) = (w, [LoggedProcessingError AttributeError]))
   \<and> (extract_fields entry = Inl e \<longrightarrow>
        process_log_entry env w entry = (w, [LoggedProcessingError e]))"
proof -
  have empty: "py_strip (py_lower []) = []"
    by (simp add: py_strip_def py_lower_def)
  show ?thesis
    by (cases p)
      (auto simp: process_log_entry_def extract_fields_def process_fields_nothing empty)
qed

theorem malformed_event_is_dropped_witness:
  "map_of [(''status'', JStr ''abc''), (''pool'', JStr ''blue'')] ''status'' = Some (JStr ''abc'')
   \<and> py_int (JStr ''abc'') = Inl ValueError
   \<and> process_log_entry
        \<lparr>now_error_rate = 0, now_failover = 0, post_error_rate = None, post_failover = None\<rparr>
        (LogWatcher_init None (Fin 2) 200 300)
        (JObj [(''status'', JStr ''abc''), (''pool'', JStr ''blue'')])
       = (LogWatcher_init None (Fin 2) 200 300, [LoggedProcessingError ValueError])
   \<and> map_of [(''status'', JInt 503), (''pool'', JInt 7)] ''status'' = Some (JInt 503)
   \<and> py_int (JInt 503) = Inr 503
   \<and> map_of [(''status'', JInt 503), (''pool'', JInt 7)] ''pool'' = Some (JInt 7)
   \<and> process_log_entry
        \<lparr>now_error_rate = 0, now_failover = 0, post_error_rate = None, post_failover = None\<rparr>
        (LogWatcher_init None (Fin 2) 200 300)
        (JObj [(''status'', JInt 503), (''pool'', JInt 7)])
       = (LogWatcher_init None (Fin 2) 200 300, [LoggedProcessingError AttributeError])
   \<and> map_of ([] :: (string \<times> json) list) ''status'' = None
   \<and> map_of ([] :: (string \<times> json) list) ''pool'' = None
   \<and> process_log_entry
        \<lparr>now_error_rate = 0, now_failover = 0, post_error_rate = None, post_failover = None\<rparr>
        (LogWatcher_init None (Fin 2) 200 300) (JObj [])
       = (LogWatcher_init None (Fin 2) 200 300, [])
   \<and> map_of [(''status'', JStr [CHR ''7'', CHR 0xA0])] ''status''
       = Some (JStr [CHR ''7'', CHR 0xA0])
   \<and> py_int (JStr [CHR ''7'', CHR 0xA0]) = Inr 7
   \<and> map_of [(''status'', JStr [CHR ''7'', CHR 0xA0])] ''pool'' = None
   \<and> process_log_entry
        \<lparr>now_error_rate = 0, now_failover = 0, post_error_rate = None, post_failover = None\<rparr>
        (LogWatcher_init None (Fin 2) 200 300) (JObj [(''status'', JStr [CHR ''7'', CHR 0xA0])])
       = process_fields
        \<lparr>now_error_rate = 0, now_failover = 0, post_error_rate = None, post_failover = None\<rparr>
        (LogWatcher_init None (Fin 2) 200 300) 7 []"
proof -
  let ?env = "\<lparr>now_error_rate = 0, now_failover = 0, post_error_rate = None, post_failover = None\<rparr>"
  let ?w = "LogWatcher_init None (Fin 2) 200 300"
  have parse: "py_int_of_str ''abc'' = Inl ValueError"
    by (simp add: py_int_of_str_def int_isspace_def is_digit_def)
  then have bad: "py_int (JStr ''abc'') = Inl ValueError"
    by simp
  have s1: "map_of [(''status'', JStr ''abc''), (''pool'', JStr ''blue'')] ''status''
      = Some (JStr ''abc'')"
    by simp
  have s2: "map_of [(''status'', JInt 503), (''pool'', JInt 7)] ''status'' = Some (JInt 503)"
    and p2: "map_of [(''status'', JInt 503), (''pool'', JInt 7)] ''pool'' = Some (JInt 7)"
    and ok: "py_int (JInt 503) = Inr 503"
    and nostr: "\<forall>s. JInt 7 \<noteq> JStr s"
    by simp_all
  have s3: "map_of ([] :: (string \<times> json) list) ''status'' = None"
    and p3: "map_of ([] :: (string \<times> json) list) ''pool'' = None"
    by simp_all
  note a = malformed_event_is_dropped
    [where kvs = "[(''status'', JStr ''abc''), (''pool'', JStr ''blue'')]" and v = "JStr ''abc''"
       and e = ValueError and env = ?env and w = ?w]
  note b = malformed_event_is_dropped
    [where kvs = "[(''status'', JInt 503), (''pool'', JInt 7)]" and v = "JInt 503"
       and n = 503 and p = "JInt 7" and env = ?env and w = ?w]
  note c = malformed_event_is_dropped
    [where kvs = "[]" and env = ?env and w = ?w]
  have r1: "process_log_entry ?env ?w (JObj [(''status'', JStr ''abc''), (''pool'', JStr ''blue'')])
      = (?w, [LoggedProcessingError ValueError])"
    using a s1 bad by blast
  have r2: "process_log_entry ?env ?w (JObj [(''status'', JInt 503), (''pool'', JInt 7)])
      = (?w, [LoggedProcessingError AttributeError])"
    using b s2 p2 ok nostr by blast
  have r3: "process_log_entry ?env ?w (JObj []) = (?w, [])"
    using c s3 p3 by blast
  have s4: "map_of [(''status'', JStr [CHR ''7'', CHR 0xA0])] ''status''
      = Some (JStr [CHR ''7'', CHR 0xA0])"
    and p4: "map_of [(''status'', JStr [CHR ''7'', CHR 0xA0])] ''pool'' = None"
    by simp_all
  have ok4: "py_int (JStr [CHR ''7'', CHR 0xA0]) = Inr 7"
    by (simp add: int_skips_no_break_space)
  note d = malformed_event_is_dropped
    [where kvs = "[(''status'', JStr [CHR ''7'', CHR 0xA0])]" and v = "JStr [CHR ''7'', CHR 0xA0]"
       and n = 7 and env = ?env and w = ?w]
  have r4: "process_log_entry ?env ?w (JObj [(''status'', JStr [CHR ''7'', CHR 0xA0])])
      = process_fields ?env ?w 7 []"
    using d s4 p4 ok4 by blast
  show ?thesis
    by (intro conjI) (fact bad s1 s2 p2 ok s3 p3 r1 r2 r3 s4 ok4 p4 r4)+
qed

text \<open>
  Claim C6 as stated fails: an entry with the status \<open>abc\<close> and the pool \<open>blue\<close> is not
  processed with the status defaulted to 0 (which would record the pool \<open>blue\<close>); it is
  dropped, and the pool tracker keeps no current pool.
\<close>

theorem defaulting_counterexample:
  "spec_extract_fields (JObj [(''status'', JStr ''abc''), (''pool'', JStr ''blue'')]) = (0, ''blue'')
   \<and> process_log_entry
        \<lparr>now_error_rate = 0, now_failover = 0, post_error_rate = None, post_failover = None\<rparr>
        (LogWatcher_init None (Fin 2) 200 300)
        (JObj [(''status'', JStr ''abc''), (''pool'', JStr ''blue'')])
       = (LogWatcher_init None (Fin 2) 200 300, [LoggedProcessingError ValueError])
   \<and> current_pool (pool_tracker (LogWatcher_init None (Fin 2) 200 300)) = None
   \<and> current_pool (pool_tracker (fst (process_fields
         \<lparr>now_error_rate = 0, now_failover = 0, post_error_rate = None, post_failover = None\<rparr>
         (LogWatcher_init None (Fin 2) 200 300) 0 ''blue''))) = Some ''blue''
   \<and> process_log_entry
        \<lparr>now_error_rate = 0, now_failover = 0, post_error_rate = None, post_failover = None\<rparr>
        (LogWatcher_init None (Fin 2) 200 300)
        (JObj [(''status'', JStr ''abc''), (''pool'', JStr ''blue'')])
       \<noteq> process_fields
        \<lparr>now_error_rate = 0, now_failover = 0, post_error_rate = None, post_failover = None\<rparr>
        (LogWatcher_init None (Fin 2) 200 300)
        (fst (spec_extract_fields (JObj [(''status'', JStr ''abc''), (''pool'', JStr ''blue'')])))
        (snd (spec_extract_fields (JObj [(''status'', JStr ''abc''), (''pool'', JStr ''blue'')])))"
proof -
  let ?env = "\<lparr>now_error_rate = 0, now_failover = 0, post_error_rate = None, post_failover = None\<rparr>"
  let ?w = "LogWatcher_init None (Fin 2) 200 300"
  let ?entry = "JObj [(''status'', JStr ''abc''), (''pool'', JStr ''blue'')]"
  have parse: "py_int_of_str ''abc'' = Inl ValueError"
    by (simp add: py_int_of_str_def int_isspace_def is_digit_def)
  then have bad: "py_int (JStr ''abc'') = Inl ValueError"
    by simp
  have norm: "py_strip (py_lower ''blue'') = ''blue''"
    by (simp add: py_strip_def py_lower_def py_lower_char_def py_isspace_def)
  have spec: "spec_extract_fields ?entry = (0, ''blue'')"
    by (simp add: spec_extract_fields_def parse norm)
  have code: "process_log_entry ?env ?w ?entry = (?w, [LoggedProcessingError ValueError])"
    by (simp add: process_log_entry_def extract_fields_def parse)
  have before: "current_pool (pool_tracker ?w) = None"
    by (simp add: LogWatcher_init_def PoolTracker_init_def)
  have claimed: "current_pool (pool_tracker (fst (process_fields ?env ?w 0 ''blue''))) = Some ''blue''"
    by (simp add: process_fields_def track_error_rate_def track_pool_change_def update_pool_def
        LogWatcher_init_def PoolTracker_init_def Let_def)
  have "fst (process_log_entry ?env ?w ?entry) \<noteq> fst (process_fields ?env ?w 0 ''blue'')"
    using code before claimed by auto
  then have differ: "process_log_entry ?env ?w ?entry
      \<noteq> process_fields ?env ?w (fst (spec_extract_fields ?entry)) (snd (spec_extract_fields ?entry))"
    unfolding spec by auto
  show ?thesis
    using spec code before claimed differ by blast
qed

subsection \<open>Facts about should_alert\<close>

lemma should_alert_other_kind:
  "k' \<noteq> k \<Longrightarrow> last_alerts (snd (should_alert now am k)) k' = last_alerts am k'"
  by (auto simp: should_alert_def split: option.splits sum.splits)

lemma should_alert_cooldown_seconds:
  "cooldown_seconds (snd (should_alert now am k)) = cooldown_seconds am"
  by (auto simp: should_alert_def split: option.splits sum.splits)

lemma should_alert_fired:
  "fst (should_alert now am k) = Inr True \<Longrightarrow>
   last_alerts (snd (should_alert now am k)) k = Some now"
  by (auto simp: should_alert_def split: option.splits sum.splits if_splits)

lemma should_alert_suppressed:
  "last_alerts am k = Some t \<Longrightarrow> now - t \<le> cooldown_seconds am * 1000000 \<Longrightarrow>
   fst (should_alert now am k) \<noteq> Inr True \<and> snd (should_alert now am k) = am"
  by (auto simp: should_alert_def timedelta_seconds_def split: option.splits sum.splits)

subsection \<open>The posts do not reach the state\<close>

lemma mask_send_message:
  "map mask_send_result (send_message n outcome a) = [Posted a, LoggedSent]"
  by (simp add: send_message_def split: option.splits)

lemma track_error_rate_post:
  "fst (track_error_rate (env\<lparr>post_error_rate := pe, post_failover := pf\<rparr>) w sc)
     = fst (track_error_rate env w sc)
   \<and> fst (snd (track_error_rate (env\<lparr>post_error_rate := pe, post_failover := pf\<rparr>) w sc))
     = fst (snd (track_error_rate env w sc))
   \<and> map mask_send_result
       (snd (snd (track_error_rate (env\<lparr>post_error_rate := pe, post_failover := pf\<rparr>) w sc)))
     = map mask_send_result (snd (snd (track_error_rate env w sc)))"
  by (auto simp: track_error_rate_def Let_def send_error_rate_alert_def mask_send_message
      split: prod.splits sum.splits option.splits)

lemma track_pool_change_post:
  "fst (track_pool_change (env\<lparr>post_error_rate := pe, post_failover := pf\<rparr>) w pool)
     = fst (track_pool_change env w pool)
   \<and> fst (snd (track_pool_change (env\<lparr>post_error_rate := pe, post_failover := pf\<rparr>) w pool))
     = fst (snd (track_pool_change env w pool))
   \<and> map mask_send_result
       (snd (snd (track_pool_change (env\<lparr>post_error_rate := pe, post_failover := pf\<rparr>) w pool)))
     = map mask_send_result (snd (snd (track_pool_change env w pool)))"
  by (auto simp: track_pool_change_def Let_def send_failover_alert_def mask_send_message
      split: prod.splits sum.splits option.splits)

lemma snd_process_fields:
  "snd (process_fields env w sc pool) =
     snd (snd (track_error_rate env w sc)) @
     (case fst (track_error_rate env w sc) of
        Some e \<Rightarrow> [LoggedProcessingError e]
      | None \<Rightarrow>
          snd (snd (track_pool_change env (fst (snd (track_error_rate env w sc))) pool)) @
          (case fst (track_pool_change env (fst (snd (track_error_rate env w sc))) pool) of
             Some e \<Rightarrow> [LoggedProcessingError e]
           | None \<Rightarrow> []))"
  by (cases "track_error_rate env w sc";
      cases "track_pool_change env (fst (snd (track_error_rate env w sc))) pool")
    (auto simp: process_fields_def split: option.splits)

lemma process_fields_post:
  "fst (process_fields (env\<lparr>post_error_rate := pe, post_failover := pf\<rparr>) w sc pool)
     = fst (process_fields env w sc pool)
   \<and> map mask_send_result
       (snd (process_fields (env\<lparr>post_error_rate := pe, post_failover := pf\<rparr>) w sc pool))
     = map mask_send_result (snd (process_fields env w sc pool))"
  by (simp add: fst_process_fields snd_process_fields track_error_rate_post
      track_pool_change_post split: option.splits)

lemma process_log_entry_post:
  "fst (process_log_entry (env\<lparr>post_error_rate := pe, post_failover := pf\<rparr>) w entry)
     = fst (process_log_entry env w entry)
   \<and> map mask_send_result
       (snd (process_log_entry (env\<lparr>post_error_rate := pe, post_failover := pf\<rparr>) w entry))
     = map mask_send_result (snd (process_log_entry env w entry))"
  by (simp add: process_log_entry_def process_fields_post split: sum.splits)

subsection \<open>A failed post is logged\<close>

lemma track_error_rate_posted:
  "Posted a \<in> set (snd (snd (track_error_rate env w sc))) \<Longrightarrow>
   alert_kind a = ''error_rate'' \<and>
   (\<forall>ex. post_error_rate env = Some ex \<longrightarrow>
      LoggedSendFailure ex \<in> set (snd (snd (track_error_rate env w sc))))"
  by (auto simp: track_error_rate_def Let_def send_error_rate_alert_def send_message_def
      split: prod.splits sum.splits option.splits if_splits)

lemma track_pool_change_posted:
  "Posted a \<in> set (snd (snd (track_pool_change env w pool))) \<Longrightarrow>
   alert_kind a = ''failover'' \<and>
   (\<forall>ex. post_failover env = Some ex \<longrightarrow>
      LoggedSendFailure ex \<in> set (snd (snd (track_pool_change env w pool))))"
  by (auto simp: track_pool_change_def Let_def send_failover_alert_def send_message_def
      split: prod.splits sum.splits option.splits if_splits)

lemma process_fields_posted:
  assumes "Posted a \<in> set (snd (process_fields env w sc pool))"
  shows "(alert_kind a = ''error_rate'' \<longrightarrow> (\<forall>ex. post_error_rate env = Some ex \<longrightarrow>
            LoggedSendFailure ex \<in> set (snd (process_fields env w sc pool))))
       \<and> (alert_kind a = ''failover'' \<longrightarrow> (\<forall>ex. post_failover env = Some ex \<longrightarrow>
            LoggedSendFailure ex \<in> set (snd (process_fields env w sc pool))))"
proof -
  let ?w1 = "fst (snd (track_error_rate env w sc))"
  from assms have "Posted a \<in> set (snd (snd (track_error_rate env w sc)))
      \<or> (fst (track_error_rate env w sc) = None
          \<and> Posted a \<in> set (snd (snd (track_pool_change env ?w1 pool))))"
    by (auto simp: snd_process_fields split: option.splits)
  then show ?thesis
  proof
    assume "Posted a \<in> set (snd (snd (track_error_rate env w sc)))"
    from track_error_rate_posted [OF this] show ?thesis
      by (auto simp: snd_process_fields)
  next
    assume "fst (track_error_rate env w sc) = None
        \<and> Posted a \<in> set (snd (snd (track_pool_change env ?w1 pool)))"
    then have n: "fst (track_error_rate env w sc) = None"
      and p: "Posted a \<in> set (snd (snd (track_pool_change env ?w1 pool)))"
      by simp_all
    from track_pool_change_posted [OF p] n show ?thesis
      by (auto simp: snd_process_fields)
  qed
qed

lemma process_log_entry_posted:
  assumes "Posted a \<in> set (snd (process_log_entry env w entry))"
  shows "(alert_kind a = ''error_rate'' \<longrightarrow> (\<forall>ex. post_error_rate env = Some ex \<longrightarrow>
            LoggedSendFailure ex \<in> set (snd (process_log_entry env w entry))))
       \<and> (alert_kind a = ''failover'' \<longrightarrow> (\<forall>ex. post_failover env = Some ex \<longrightarrow>
            LoggedSendFailure ex \<in> set (snd (process_log_entry env w entry))))"
proof (cases "extract_fields entry")
  case (Inl e)
  with assms show ?thesis by (simp add: process_log_entry_def)
next
  case (Inr x)
  obtain sc pool where x: "x = (sc, pool)" by (cases x)
  from assms Inr x have "Posted a \<in> set (snd (process_fields env w sc pool))"
    by (simp add: process_log_entry_def)
  from process_fields_posted [OF this] Inr x show ?thesis
    by (simp add: process_log_entry_def)
qed

subsection \<open>The timestamp of an alert stays\<close>

lemma track_error_rate_fired:
  "a \<in> set (alerts_of (snd (snd (track_error_rate env w sc)))) \<Longrightarrow>
   fst (track_error_rate env w sc) = None \<and>
   last_alerts (alert_manager (fst (snd (track_error_rate env w sc)))) ''error_rate''
     = Some (now_error_rate env)"
  using should_alert_fired [of "now_error_rate env" "alert_manager w" "''error_rate''"]
  by (auto simp: track_error_rate_def Let_def split: prod.splits sum.splits if_splits)

lemma track_pool_change_fired:
  "a \<in> set (alerts_of (snd (snd (track_pool_change env w pool)))) \<Longrightarrow>
   fst (track_pool_change env w pool) = None \<and>
   last_alerts (alert_manager (fst (snd (track_pool_change env w pool)))) ''failover''
     = Some (now_failover env)"
  using should_alert_fired [of "now_failover env" "alert_manager w" "''failover''"]
  by (auto simp: track_pool_change_def Let_def split: prod.splits sum.splits option.splits if_splits)

lemma track_error_rate_keeps_failover:
  "last_alerts (alert_manager (fst (snd (track_error_rate env w sc)))) ''failover''
     = last_alerts (alert_manager w) ''failover''"
  using should_alert_other_kind [of "''failover''" "''error_rate''" "now_error_rate env" "alert_manager w"]
  by (auto simp: track_error_rate_def Let_def split: prod.splits sum.splits)

lemma track_pool_change_keeps_error_rate:
  "last_alerts (alert_manager (fst (snd (track_pool_change env w pool)))) ''error_rate''
     = last_alerts (alert_manager w) ''error_rate''"
  using should_alert_other_kind [of "''error_rate''" "''failover''" "now_failover env" "alert_manager w"]
  by (auto simp: track_pool_change_def Let_def split: prod.splits sum.splits option.splits)

lemma track_error_rate_cooldown:
  "cooldown_seconds (alert_manager (fst (snd (track_error_rate env w sc))))
     = cooldown_seconds (alert_manager w)"
  using should_alert_cooldown_seconds [of "now_error_rate env" "alert_manager w" "''error_rate''"]
  by (auto simp: track_error_rate_def Let_def split: prod.splits sum.splits)

lemma track_pool_change_cooldown:
  "cooldown_seconds (alert_manager (fst (snd (track_pool_change env w pool))))
     = cooldown_seconds (alert_manager w)"
  using should_alert_cooldown_seconds [of "now_failover env" "alert_manager w" "''failover''"]
  by (auto simp: track_pool_change_def Let_def split: prod.splits sum.splits option.splits)

lemma process_fields_fired:
  assumes "a \<in> set (alerts_of (snd (process_fields env w sc pool)))"
  shows "(alert_kind a = ''error_rate'' \<longrightarrow>
            last_alerts (alert_manager (fst (process_fields env w sc pool))) ''error_rate''
              = Some (now_error_rate env))
       \<and> (alert_kind a = ''failover'' \<longrightarrow>
            last_alerts (alert_manager (fst (process_fields env w sc pool))) ''failover''
              = Some (now_failover env))"
proof -
  let ?w1 = "fst (snd (track_error_rate env w sc))"
  from assms have "a \<in> set (alerts_of (snd (snd (track_error_rate env w sc))))
      \<or> (fst (track_error_rate env w sc) = None
          \<and> a \<in> set (alerts_of (snd (snd (track_pool_change env ?w1 pool)))))"
    by (auto simp: alerts_of_process_fields split: option.splits)
  then show ?thesis
  proof
    assume e: "a \<in> set (alerts_of (snd (snd (track_error_rate env w sc))))"
    from track_error_rate_fired [OF e] alert_kind_track_error_rate [OF e]
    show ?thesis
      by (simp add: fst_process_fields track_pool_change_keeps_error_rate)
  next
    assume "fst (track_error_rate env w sc) = None
        \<and> a \<in> set (alerts_of (snd (snd (track_pool_change env ?w1 pool))))"
    then have n: "fst (track_error_rate env w sc) = None"
      and p: "a \<in> set (alerts_of (snd (snd (track_pool_change env ?w1 pool))))"
      by simp_all
    from track_pool_change_fired [OF p] alert_kind_track_pool_change [OF p] n
    show ?thesis
      by (simp add: fst_process_fields)
  qed
qed

lemma process_log_entry_fired:
  assumes "a \<in> set (alerts_of (snd (process_log_entry env w entry)))"
  shows "(alert_kind a = ''error_rate'' \<longrightarrow>
            last_alerts (alert_manager (fst (process_log_entry env w entry))) ''error_rate''
              = Some (now_error_rate env))
       \<and> (alert_kind a = ''failover'' \<longrightarrow>
            last_alerts (alert_manager (fst (process_log_entry env w entry))) ''failover''
              = Some (now_failover env))"
proof (cases "extract_fields entry")
  case (Inl e)
  with assms show ?thesis by (simp add: process_log_entry_def)
next
  case (Inr x)
  obtain sc pool where x: "x = (sc, pool)" by (cases x)
  from assms Inr x have "a \<in> set (alerts_of (snd (process_fields env w sc pool)))"
    by (simp add: process_log_entry_def)
  from process_fields_fired [OF this] Inr x show ?thesis
    by (simp add: process_log_entry_def)
qed

subsection \<open>No further alert within the cooldown\<close>

lemma track_error_rate_suppressed:
  "last_alerts (alert_manager w) ''error_rate'' = Some t \<Longrightarrow>
   now_error_rate env - t \<le> cooldown_seconds (alert_manager w) * 1000000 \<Longrightarrow>
   alerts_of (snd (snd (track_error_rate env w sc))) = [] \<and>
   alert_manager (fst (snd (track_error_rate env w sc))) = alert_manager w"
  using should_alert_suppressed [of "alert_manager w" "''error_rate''" t "now_error_rate env"]
  by (auto simp: track_error_rate_def Let_def split: prod.splits sum.splits)

lemma track_pool_change_suppressed:
  "last_alerts (alert_manager w) ''failover'' = Some t \<Longrightarrow>
   now_failover env - t \<le> cooldown_seconds (alert_manager w) * 1000000 \<Longrightarrow>
   alerts_of (snd (snd (track_pool_change env w pool))) = [] \<and>
   alert_manager (fst (snd (track_pool_change env w pool))) = alert_manager w"
  using should_alert_suppressed [of "alert_manager w" "''failover''" t "now_failover env"]
  by (auto simp: track_pool_change_def Let_def split: prod.splits sum.splits option.splits)

lemma process_fields_cooldown:
  "cooldown_seconds (alert_manager (fst (process_fields env w sc pool)))
     = cooldown_seconds (alert_manager w)"
  by (simp add: fst_process_fields track_error_rate_cooldown track_pool_change_cooldown
      split: option.splits)

lemma process_log_entry_cooldown:
  "cooldown_seconds (alert_manager (fst (process_log_entry env w entry)))
     = cooldown_seconds (alert_manager w)"
  by (simp add: process_log_entry_def process_fields_cooldown split: sum.splits)

lemma process_fields_suppressed_error_rate:
  assumes "last_alerts (alert_manager w) ''error_rate'' = Some t"
    and "now_error_rate env - t \<le> cooldown_seconds (alert_manager w) * 1000000"
  shows "last_alerts (alert_manager (fst (process_fields env w sc pool))) ''error_rate'' = Some t"
    and "a \<in> set (alerts_of (snd (process_fields env w sc pool))) \<Longrightarrow>
         alert_kind a = ''failover''"
proof -
  note s = track_error_rate_suppressed [OF assms, of sc]
  show "last_alerts (alert_manager (fst (process_fields env w sc pool))) ''error_rate'' = Some t"
    using s assms(1)
    by (simp add: fst_process_fields track_pool_change_keeps_error_rate split: option.splits)
  show "a \<in> set (alerts_of (snd (process_fields env w sc pool))) \<Longrightarrow>
      alert_kind a = ''failover''"
    using s by (auto simp: alerts_of_process_fields alert_kind_track_pool_change
        split: option.splits)
qed

lemma process_fields_suppressed_failover:
  assumes "last_alerts (alert_manager w) ''failover'' = Some t"
    and "now_failover env - t \<le> cooldown_seconds (alert_manager w) * 1000000"
  shows "last_alerts (alert_manager (fst (process_fields env w sc pool))) ''failover'' = Some t"
    and "a \<in> set (alerts_of (snd (process_fields env w sc pool))) \<Longrightarrow>
         alert_kind a = ''error_rate''"
proof -
  let ?w1 = "fst (snd (track_error_rate env w sc))"
  have l1: "last_alerts (alert_manager ?w1) ''failover'' = Some t"
    using assms(1) by (simp add: track_error_rate_keeps_failover)
  have c1: "now_failover env - t \<le> cooldown_seconds (alert_manager ?w1) * 1000000"
    using assms(2) by (simp add: track_error_rate_cooldown)
  note s = track_pool_change_suppressed [OF l1 c1, of pool]
  show "last_alerts (alert_manager (fst (process_fields env w sc pool))) ''failover'' = Some t"
    using s l1 by (simp add: fst_process_fields split: option.splits)
  show "a \<in> set (alerts_of (snd (process_fields env w sc pool))) \<Longrightarrow>
      alert_kind a = ''error_rate''"
    using s by (auto simp: alerts_of_process_fields alert_kind_track_error_rate
        split: option.splits)
qed

lemma process_log_entry_suppressed_error_rate:
  assumes "last_alerts (alert_manager w) ''error_rate'' = Some t"
    and "now_error_rate env - t \<le> cooldown_seconds (alert_manager w) * 1000000"
  shows "last_alerts (alert_manager (fst (process_log_entry env w entry))) ''error_rate'' = Some t"
    and "a \<in> set (alerts_of (snd (process_log_entry env w entry))) \<Longrightarrow>
         alert_kind a = ''failover''"
  using assms(1) process_fields_suppressed_error_rate(1) [OF assms]
    process_fields_suppressed_error_rate(2) [OF assms]
  by (auto simp: process_log_entry_def split: sum.splits)

lemma process_log_entry_suppressed_failover:
  assumes "last_alerts (alert_manager w) ''failover'' = Some t"
    and "now_failover env - t \<le> cooldown_seconds (alert_manager w) * 1000000"
  shows "last_alerts (alert_manager (fst (process_log_entry env w entry))) ''failover'' = Some t"
    and "a \<in> set (alerts_of (snd (process_log_entry env w entry))) \<Longrightarrow>
         alert_kind a = ''error_rate''"
  using assms(1) process_fields_suppressed_failover(1) [OF assms]
    process_fields_suppressed_failover(2) [OF assms]
  by (auto simp: process_log_entry_def split: sum.splits)

lemma process_entries_suppressed_error_rate:
  "last_alerts (alert_manager w) ''error_rate'' = Some t \<Longrightarrow>
   \<forall>x \<in> set es. now_error_rate (fst x) - t \<le> cooldown_seconds (alert_manager w) * 1000000 \<Longrightarrow>
   a \<in> set (alerts_of (snd (process_entries w es))) \<Longrightarrow> alert_kind a = ''failover''"
proof (induction es arbitrary: w)
  case Nil
  then show ?case by simp
next
  case (Cons x es)
  obtain env entry where x: "x = (env, entry)" by (cases x)
  let ?w' = "fst (process_log_entry env w entry)"
  have now: "now_error_rate env - t \<le> cooldown_seconds (alert_manager w) * 1000000"
    using Cons.prems(2) x by simp
  have l: "last_alerts (alert_manager ?w') ''error_rate'' = Some t"
    using process_log_entry_suppressed_error_rate(1) [OF Cons.prems(1) now] .
  have rest: "\<forall>x \<in> set es. now_error_rate (fst x) - t \<le> cooldown_seconds (alert_manager ?w') * 1000000"
    using Cons.prems(2) by (simp add: process_log_entry_cooldown)
  from Cons.prems(3) have "a \<in> set (alerts_of (snd (process_log_entry env w entry)))
      \<or> a \<in> set (alerts_of (snd (process_entries ?w' es)))"
    by (simp add: x alerts_of_append)
  then show ?case
    using process_log_entry_suppressed_error_rate(2) [OF Cons.prems(1) now]
      Cons.IH [OF l rest]
    by blast
qed

lemma process_entries_suppressed_failover:
  "last_alerts (alert_manager w) ''failover'' = Some t \<Longrightarrow>
   \<forall>x \<in> set es. now_failover (fst x) - t \<le> cooldown_seconds (alert_manager w) * 1000000 \<Longrightarrow>
   a \<in> set (alerts_of (snd (process_entries w es))) \<Longrightarrow> alert_kind a = ''error_rate''"
proof (induction es arbitrary: w)
  case Nil
  then show ?case by simp
next
  case (Cons x es)
  obtain env entry where x: "x = (env, entry)" by (cases x)
  let ?w' = "fst (process_log_entry env w entry)"
  have now: "now_failover env - t \<le> cooldown_seconds (alert_manager w) * 1000000"
    using Cons.prems(2) x by simp
  have l: "last_alerts (alert_manager ?w') ''failover'' = Some t"
    using process_log_entry_suppressed_failover(1) [OF Cons.prems(1) now] .
  have rest: "\<forall>x \<in> set es. now_failover (fst x) - t \<le> cooldown_seconds (alert_manager ?w') * 1000000"
    using Cons.prems(2) by (simp add: process_log_entry_cooldown)
  from Cons.prems(3) have "a \<in> set (alerts_of (snd (process_log_entry env w entry)))
      \<or> a \<in> set (alerts_of (snd (process_entries ?w' es)))"
    by (simp add: x alerts_of_append)
  then show ?case
    using process_log_entry_suppressed_failover(2) [OF Cons.prems(1) now]
      Cons.IH [OF l rest]
    by blast
qed

text \<open>
  Claim C7. A failed post is caught inside the notifier and logged: the watcher reached
  (window, pool tracker, cooldown timestamps) is the one reached when the post succeeds, and
  the effects differ only in the log line for the outcome of the post. The timestamp that
  \<open>should_alert\<close> recorded for the alert stays, so no later entry whose clock reading is
  within the cooldown of that timestamp produces an alert of the same kind.
\<close>

theorem notifier_failure_keeps_state:
  "fst (process_log_entry (env\<lparr>post_error_rate := pe, post_failover := pf\<rparr>) w entry)
     = fst (process_log_entry env w entry)
   \<and> map mask_send_result
         (snd (process_log_entry (env\<lparr>post_error_rate := pe, post_failover := pf\<rparr>) w entry))
     = map mask_send_result (snd (process_log_entry env w entry))
   \<and> (Posted p \<in> set (snd (process_log_entry env w entry)) \<longrightarrow>
        (alert_kind p = ''error_rate'' \<longrightarrow>
           (\<forall>ex. post_error_rate env = Some ex \<longrightarrow>
              LoggedSendFailure ex \<in> set (snd (process_log_entry env w entry))))
        \<and> (alert_kind p = ''failover'' \<longrightarrow>
           (\<forall>ex. post_failover env = Some ex \<longrightarrow>
              LoggedSendFailure ex \<in> set (snd (process_log_entry env w entry)))))
   \<and> (a \<in> set (alerts_of (snd (process_log_entry env w entry))) \<longrightarrow>
        (alert_kind a = ''error_rate'' \<longrightarrow>
           last_alerts (alert_manager (fst (process_log_entry env w entry))) ''error_rate''
             = Some (now_error_rate env)
           \<and> ((\<forall>x \<in> set later. now_error_rate (fst x) - now_error_rate env
                   \<le> cooldown_seconds (alert_manager w) * 1000000) \<longrightarrow>
               (\<forall>b \<in> set (alerts_of (snd (process_entries
                     (fst (process_log_entry env w entry)) later))).
                  alert_kind b \<noteq> ''error_rate'')))
        \<and> (alert_kind a = ''failover'' \<longrightarrow>
           last_alerts (alert_manager (fst (process_log_entry env w entry))) ''failover''
             = Some (now_failover env)
           \<and> ((\<forall>x \<in> set later. now_failover (fst x) - now_failover env
                   \<le> cooldown_seconds (alert_manager w) * 1000000) \<longrightarrow>
               (\<forall>b \<in> set (alerts_of (snd (process_entries
                     (fst (process_log_entry env w entry)) later))).
                  alert_kind b \<noteq> ''failover''))))"
proof -
  let ?w' = "fst (process_log_entry env w entry)"
  have cd: "cooldown_seconds (alert_manager ?w') = cooldown_seconds (alert_manager w)"
    by (rule process_log_entry_cooldown)
  have er: "last_alerts (alert_manager ?w') ''error_rate'' = Some (now_error_rate env) \<Longrightarrow>
      \<forall>x \<in> set later. now_error_rate (fst x) - now_error_rate env
         \<le> cooldown_seconds (alert_manager w) * 1000000 \<Longrightarrow>
      \<forall>b \<in> set (alerts_of (snd (process_entries ?w' later))). alert_kind b \<noteq> ''error_rate''"
    using process_entries_suppressed_error_rate [where w = ?w' and t = "now_error_rate env" and es = later] cd
    by fastforce
  have fo: "last_alerts (alert_manager ?w') ''failover'' = Some (now_failover env) \<Longrightarrow>
      \<forall>x \<in> set later. now_failover (fst x) - now_failover env
         \<le> cooldown_seconds (alert_manager w) * 1000000 \<Longrightarrow>
      \<forall>b \<in> set (alerts_of (snd (process_entries ?w' later))). alert_kind b \<noteq> ''failover''"
    using process_entries_suppressed_failover [where w = ?w' and t = "now_failover env" and es = later] cd
    by fastforce
  show ?thesis
    using process_log_entry_post [where env = env and pe = pe and pf = pf and w = w and entry = entry]
      process_log_entry_posted [where a = p and env = env and w = w and entry = entry]
      process_log_entry_fired [where a = a and env = env and w = w and entry = entry] er fo
    by blast
qed

lemma rate_50_of_50: "float_mul (int_truediv 50 50) 100 = 100"
  by code_simp

lemma round_100: "py_round2 100 = 100"
  by code_simp

lemma breaching_run:
  "process_log_entry (failing_env now) breaching_watcher error_entry =
     (\<lparr>alert_manager =
          \<lparr>cooldown_seconds = 300,
           last_alerts = [''error_rate'' \<mapsto> now, ''failover'' \<mapsto> now]\<rparr>,
       pool_tracker =
         \<lparr>current_pool = Some ''green'',
          last_seen_pools = \<lparr>maxlen = 10, items = [''blue'', ''green'']\<rparr>\<rparr>,
       error_monitor =
         \<lparr>window_size = 200, threshold_percent = Fin 2,
          requests = \<lparr>maxlen = 200, items = replicate 49 503 @ [503]\<rparr>\<rparr>,
       slack_notifier = Some \<lparr>webhook_url = ''https://hooks.slack.test/T0''\<rparr>\<rparr>,
      [Warned (ErrorRateAlert full_error_stats), Posted (ErrorRateAlert full_error_stats),
       LoggedSendFailure Timeout,
       Warned (FailoverAlert ''blue'' ''green''), Posted (FailoverAlert ''blue'' ''green''),
       LoggedSendFailure Timeout])"
  by (simp add: process_log_entry_def extract_fields_def error_entry_def process_fields_def
      track_error_rate_def track_pool_change_def add_request_def get_current_stats_def
      update_pool_def should_alert_def send_error_rate_alert_def send_failover_alert_def
      send_message_def breaching_watcher_def failing_env_def AlertManager_init_def
      deque_append_def error_count_def rate_50_of_50 round_100 full_error_stats_def
      py_strip_def py_lower_def py_lower_char_def py_isspace_def Let_def)

theorem notifier_failure_keeps_state_witness:
  "Posted (ErrorRateAlert full_error_stats)
      \<in> set (snd (process_log_entry (failing_env 0) breaching_watcher error_entry))
   \<and> Posted (FailoverAlert ''blue'' ''green'')
      \<in> set (snd (process_log_entry (failing_env 0) breaching_watcher error_entry))
   \<and> post_error_rate (failing_env 0) = Some Timeout
   \<and> post_failover (failing_env 0) = Some Timeout
   \<and> LoggedSendFailure Timeout
      \<in> set (snd (process_log_entry (failing_env 0) breaching_watcher error_entry))
   \<and> now_error_rate (failing_env 300000000) - now_error_rate (failing_env 0)
       \<le> cooldown_seconds (alert_manager breaching_watcher) * 1000000
   \<and> fst (process_log_entry (failing_env 0) breaching_watcher error_entry)
       = fst (process_log_entry
               ((failing_env 0)\<lparr>post_error_rate := None, post_failover := None\<rparr>)
               breaching_watcher error_entry)
   \<and> last_alerts (alert_manager
         (fst (process_log_entry (failing_env 0) breaching_watcher error_entry))) ''error_rate''
       = Some 0
   \<and> last_alerts (alert_manager
         (fst (process_log_entry (failing_env 0) breaching_watcher error_entry))) ''failover''
       = Some 0
   \<and> ErrorRateAlert full_error_stats
       \<notin> set (alerts_of (snd (process_entries
           (fst (process_log_entry (failing_env 0) breaching_watcher error_entry))
           [(failing_env 300000000, error_entry)])))"
proof -
  let ?fx = "snd (process_log_entry (failing_env 0) breaching_watcher error_entry)"
  have posted: "Posted (ErrorRateAlert full_error_stats) \<in> set ?fx"
    and posted': "Posted (FailoverAlert ''blue'' ''green'') \<in> set ?fx"
    and logged: "LoggedSendFailure Timeout \<in> set ?fx"
    and fired: "ErrorRateAlert full_error_stats \<in> set (alerts_of ?fx)"
    and fired': "FailoverAlert ''blue'' ''green'' \<in> set (alerts_of ?fx)"
    by (simp_all add: breaching_run)
  have kind: "alert_kind (ErrorRateAlert full_error_stats) = ''error_rate''"
    and kind': "alert_kind (FailoverAlert ''blue'' ''green'') = ''failover''"
    by simp_all
  have post: "post_error_rate (failing_env 0) = Some Timeout"
    and post': "post_failover (failing_env 0) = Some Timeout"
    and now: "now_error_rate (failing_env 0) = 0" "now_failover (failing_env 0) = 0"
    by (simp_all add: failing_env_def)
  have within: "\<forall>x \<in> set [(failing_env 300000000, error_entry)].
      now_error_rate (fst x) - now_error_rate (failing_env 0)
        \<le> cooldown_seconds (alert_manager breaching_watcher) * 1000000"
    by (simp add: failing_env_def breaching_watcher_def AlertManager_init_def)
  note thm1 = notifier_failure_keeps_state
    [where env = "failing_env 0" and w = breaching_watcher and entry = error_entry
       and pe = None and pf = None and p = "ErrorRateAlert full_error_stats"
       and a = "ErrorRateAlert full_error_stats"
       and later = "[(failing_env 300000000, error_entry)]"]
  note thm2 = notifier_failure_keeps_state
    [where env = "failing_env 0" and w = breaching_watcher and entry = error_entry
       and pe = None and pf = None and p = "FailoverAlert ''blue'' ''green''"
       and a = "FailoverAlert ''blue'' ''green''"
       and later = "[]"]
  have s1: "fst (process_log_entry (failing_env 0) breaching_watcher error_entry)
       = fst (process_log_entry
               ((failing_env 0)\<lparr>post_error_rate := None, post_failover := None\<rparr>)
               breaching_watcher error_entry)"
    using thm1 by simp
  have s2: "last_alerts (alert_manager
         (fst (process_log_entry (failing_env 0) breaching_watcher error_entry))) ''error_rate''
       = Some 0"
    using thm1 fired kind now by simp
  have s3: "last_alerts (alert_manager
         (fst (process_log_entry (failing_env 0) breaching_watcher error_entry))) ''failover''
       = Some 0"
    using thm2 fired' kind' now by simp
  have s4: "\<forall>b \<in> set (alerts_of (snd (process_entries
           (fst (process_log_entry (failing_env 0) breaching_watcher error_entry))
           [(failing_env 300000000, error_entry)]))).
         alert_kind b \<noteq> ''error_rate''"
    using thm1 fired kind within by blast
  have elapsed: "now_error_rate (failing_env 300000000) - now_error_rate (failing_env 0)
      \<le> cooldown_seconds (alert_manager breaching_watcher) * 1000000"
    using within by simp
  have s5: "ErrorRateAlert full_error_stats
      \<notin> set (alerts_of (snd (process_entries
          (fst (process_log_entry (failing_env 0) breaching_watcher error_entry))
          [(failing_env 300000000, error_entry)])))"
  proof
    assume "ErrorRateAlert full_error_stats
      \<in> set (alerts_of (snd (process_entries
          (fst (process_log_entry (failing_env 0) breaching_watcher error_entry))
          [(failing_env 300000000, error_entry)])))"
    with s4 have "alert_kind (ErrorRateAlert full_error_stats) \<noteq> ''error_rate''"
      by (rule bspec)
    with kind show False by simp
  qed
  show ?thesis
    by (intro conjI) (fact posted posted' post post' logged elapsed s1 s2 s3 s5)+
qed

end
